theory Spec2Isabelle
  imports Complex_Main "HOL-Library.AList"
begin

section \<open>Strings\<close>

text \<open>
  A JavaScript string is a sequence of UTF-16 code units; \<open>length\<close>, indexing,
  \<open>includes\<close> and the regular expressions of the program (none has the \<open>u\<close> flag) all
  work on code units. A string is therefore a list of code units, each an integer.
  \<open>js\<close> turns an ASCII literal into such a list.
\<close>

type_synonym ustring = "int list"

definition js :: "string \<Rightarrow> ustring" where
  "js s = map of_char s"

fun startsWith :: "'a list \<Rightarrow> 'a list \<Rightarrow> bool" where
  "startsWith s [] = True"
| "startsWith [] (y # ys) = False"
| "startsWith (x # xs) (y # ys) = (x = y \<and> startsWith xs ys)"

definition endsWith :: "'a list \<Rightarrow> 'a list \<Rightarrow> bool" where
  "endsWith s t = startsWith (rev s) (rev t)"

text \<open>\<open>s.includes(t)\<close>: \<open>t\<close> occurs in \<open>s\<close> as a contiguous run.\<close>

fun includes_str :: "'a list \<Rightarrow> 'a list \<Rightarrow> bool" where
  "includes_str [] t = (t = [])"
| "includes_str (x # xs) t = (startsWith (x # xs) t \<or> includes_str xs t)"

text \<open>\<open>s.split(sep)\<close> for a one-unit separator; the empty string splits into \<open>['']\<close>.\<close>

fun split :: "'a \<Rightarrow> 'a list \<Rightarrow> 'a list list" where
  "split sep [] = [[]]"
| "split sep (x # xs) =
     (if x = sep then [] # split sep xs
      else (case split sep xs of [] \<Rightarrow> [[x]] | w # ws \<Rightarrow> (x # w) # ws))"

fun join :: "'a list \<Rightarrow> 'a list list \<Rightarrow> 'a list" where
  "join sep [] = []"
| "join sep [w] = w"
| "join sep (w # v # ws) = w @ sep @ join sep (v # ws)"

text \<open>The decimal form of a count, as a template literal prints it.\<close>

fun decimal :: "nat \<Rightarrow> ustring" where
  "decimal n = (if n < 10 then [48 + int n] else decimal (n div 10) @ [48 + int (n mod 10)])"

section \<open>Configuration (config.js)\<close>

record RISK_THRESHOLDS =
  SAFE :: int
  LOW :: int
  MEDIUM :: int
  HIGH :: int
  CRITICAL :: int

record PERFORMANCE =
  CACHE_TTL_MS :: int
  CACHE_MAX_ENTRIES :: int

record SCORE_WEIGHTS =
  NON_HTTPS_SENSITIVE :: int
  IP_ADDRESS_DOMAIN :: int
  SUSPICIOUS_TLD :: int
  EXCESSIVE_SUBDOMAINS :: int
  HOMOGRAPH_ATTACK :: int
  TYPOSQUATTING_WEIGHT :: int
  URL_AT_SYMBOL :: int
  URL_SHORTENER :: int
  EMBEDDED_URL :: int
  SUSPICIOUS_KEYWORD :: int
  URGENCY_PHRASE :: int
  EXCESSIVE_EXCLAMATIONS :: int
  HIDDEN_IFRAME :: int
  MISLEADING_LINK :: int
  OBFUSCATED_SCRIPT :: int
  PASSWORD_NO_HTTPS :: int
  EXTERNAL_FORM_ACTION :: int
  HTTPS_LOGIN_UNKNOWN :: int
  HTTP_LOGIN :: int
  HTTPS_LOGIN_KNOWN :: int
  CREDIT_CARD_REQUEST :: int
  SSN_REQUEST :: int
  AUTO_SUBMIT_FORM :: int
  POPUP_WINDOW :: int
  RIGHT_CLICK_DISABLED :: int
  CLIPBOARD_ACCESS :: int

text \<open>
  The three regular expressions of \<open>PATTERNS\<close> are constants of the program; they are
  modelled below by the functions \<open>IP_ADDRESS_PATTERN_test\<close>, \<open>PUNYCODE_PATTERN_test\<close>
  and \<open>DEDUPLICATION_PATTERN_replace\<close>.
\<close>

record PATTERNS =
  SUSPICIOUS_TLDS :: "ustring list"
  SUSPICIOUS_KEYWORDS :: "ustring list"
  URGENCY_PHRASES :: "ustring list"
  URL_SHORTENERS :: "ustring list"

text \<open>
  \<open>KEYBOARD_PROXIMITY_THRESHOLD\<close> is the double nearest to 0.8 in the program. The only
  use is \<open>matchScore / maxLen > threshold\<close> with \<open>matchScore\<close> a multiple of one half and
  \<open>maxLen\<close> a string length: such a quotient is either exactly four fifths, and then
  rounds to the same double, or differs from it by far more than a rounding error. The
  comparison in doubles and the comparison of the exact rationals agree, so the
  threshold is the rational number.
\<close>

record TYPOSQUATTING =
  MAX_LEVENSHTEIN_DISTANCE :: nat
  MIN_DOMAIN_LENGTH :: nat
  KEYBOARD_PROXIMITY_THRESHOLD :: rat

record FEATURES =
  ENABLE_CACHING :: bool

record config =
  thresholds :: RISK_THRESHOLDS
  performance :: PERFORMANCE
  weights :: SCORE_WEIGHTS
  patterns :: PATTERNS
  typosquatting :: TYPOSQUATTING
  features :: FEATURES

definition CONFIG :: config where
  "CONFIG = \<lparr>
     thresholds = \<lparr>SAFE = 0, LOW = 20, MEDIUM = 40, HIGH = 60, CRITICAL = 80\<rparr>,
     performance = \<lparr>CACHE_TTL_MS = 30 * 60 * 1000, CACHE_MAX_ENTRIES = 1000\<rparr>,
     weights = \<lparr>
       NON_HTTPS_SENSITIVE = 25, IP_ADDRESS_DOMAIN = 30, SUSPICIOUS_TLD = 15,
       EXCESSIVE_SUBDOMAINS = 10, HOMOGRAPH_ATTACK = 40, TYPOSQUATTING_WEIGHT = 35,
       URL_AT_SYMBOL = 20, URL_SHORTENER = 10, EMBEDDED_URL = 15, SUSPICIOUS_KEYWORD = 5,
       URGENCY_PHRASE = 8, EXCESSIVE_EXCLAMATIONS = 10, HIDDEN_IFRAME = 25,
       MISLEADING_LINK = 15, OBFUSCATED_SCRIPT = 15,
       PASSWORD_NO_HTTPS = 35, EXTERNAL_FORM_ACTION = 30, HTTPS_LOGIN_UNKNOWN = 15,
       HTTP_LOGIN = 15, HTTPS_LOGIN_KNOWN = 2, CREDIT_CARD_REQUEST = 15, SSN_REQUEST = 20,
       AUTO_SUBMIT_FORM = 20, POPUP_WINDOW = 10, RIGHT_CLICK_DISABLED = 5,
       CLIPBOARD_ACCESS = 10\<rparr>,
     patterns = \<lparr>
       SUSPICIOUS_TLDS = map js
         [''.tk'', ''.ml'', ''.ga'', ''.cf'', ''.gq'', ''.xyz'', ''.top'', ''.work'',
          ''.live'', ''.site'', ''.online'', ''.club'', ''.bid'', ''.loan''],
       SUSPICIOUS_KEYWORDS = map js
         [''verify'', ''urgent'', ''suspended'', ''locked'', ''limited'', ''unusual'',
          ''confirm'', ''update'', ''secure'', ''expire'', ''immediately'', ''account-update'',
          ''security-alert'', ''billing-problem'', ''reset-password'', ''click-here'',
          ''prize'', ''winner'', ''congratulations'', ''claim'', ''free-money''],
       URGENCY_PHRASES = map js
         [''act now'', ''immediate action'', ''within 24 hours'', ''account will be closed'',
          ''verify immediately'', ''urgent action required'', ''expire soon'', ''last chance'',
          ''don't miss out'', ''limited time'', ''respond now'', ''final notice''],
       URL_SHORTENERS = map js
         [''bit.ly'', ''tinyurl.com'', ''goo.gl'', ''t.co'', ''ow.ly'', ''is.gd'',
          ''buff.ly'', ''adf.ly'', ''bit.do'', ''mcaf.ee'']\<rparr>,
     typosquatting = \<lparr>MAX_LEVENSHTEIN_DISTANCE = 2, MIN_DOMAIN_LENGTH = 4,
       KEYBOARD_PROXIMITY_THRESHOLD = 4 / 5\<rparr>,
     features = \<lparr>ENABLE_CACHING = True\<rparr>\<rparr>"

section \<open>Risk level (PhishingDetector._getRiskLevel)\<close>

datatype RiskLevel = Safe | Low | Medium | High | Critical

definition getRiskLevel :: "config \<Rightarrow> int \<Rightarrow> RiskLevel" where
  "getRiskLevel cfg score =
     (if score \<ge> CRITICAL (thresholds cfg) then Critical
      else if score \<ge> HIGH (thresholds cfg) then High
      else if score \<ge> MEDIUM (thresholds cfg) then Medium
      else if score \<ge> LOW (thresholds cfg) then Low
      else Safe)"

section \<open>The regular expressions of the configuration\<close>

definition is_digit :: "int \<Rightarrow> bool" where
  "is_digit c = (48 \<le> c \<and> c \<le> 57)"

definition strip_prefix :: "'a list \<Rightarrow> 'a list \<Rightarrow> 'a list option" where
  "strip_prefix p s = (if startsWith s p then Some (drop (length p) s) else None)"

text \<open>\<open>\d+\<close> at the start of the string: the rest after the longest run of digits.\<close>

definition digits_plus :: "ustring \<Rightarrow> ustring option" where
  "digits_plus s =
     (case s of [] \<Rightarrow> None
      | c # r \<Rightarrow> if is_digit c then Some (dropWhile is_digit r) else None)"

text \<open>
  \<open>/^https?:\/\/\d+\.\d+\.\d+\.\d+/.test(url)\<close>. The expression never has to backtrack:
  an \<open>s\<close> that is skipped cannot be followed by the colon, and a shorter run of digits
  is followed by a digit, not by the dot.
\<close>

definition IP_ADDRESS_PATTERN_test :: "ustring \<Rightarrow> bool" where
  "IP_ADDRESS_PATTERN_test url =
     (Option.bind (strip_prefix (js ''http'') url) (\<lambda>r1.
      Option.bind (strip_prefix (js ''://'')
                     (case strip_prefix (js ''s'') r1 of Some r \<Rightarrow> r | None \<Rightarrow> r1)) (\<lambda>r2.
      Option.bind (digits_plus r2) (\<lambda>r3.
      Option.bind (strip_prefix (js ''.'') r3) (\<lambda>r4.
      Option.bind (digits_plus r4) (\<lambda>r5.
      Option.bind (strip_prefix (js ''.'') r5) (\<lambda>r6.
      Option.bind (digits_plus r6) (\<lambda>r7.
      Option.bind (strip_prefix (js ''.'') r7) (\<lambda>r8.
      digits_plus r8)))))))) \<noteq> None)"

definition PUNYCODE_PATTERN_test :: "ustring \<Rightarrow> bool" where
  "PUNYCODE_PATTERN_test s = includes_str s (js ''xn--'')"

text \<open>
  \<open>s.replace(/(.)\1+/g, '$1')\<close>: every maximal run of one repeated code unit becomes
  a single unit. The dot of a regular expression does not match a line terminator, so
  runs of those are kept.
\<close>

definition isLineTerminator :: "int \<Rightarrow> bool" where
  "isLineTerminator c = (c = 10 \<or> c = 13 \<or> c = 0x2028 \<or> c = 0x2029)"

fun DEDUPLICATION_PATTERN_replace :: "ustring \<Rightarrow> ustring" where
  "DEDUPLICATION_PATTERN_replace (c # d # rest) =
     (if c = d \<and> \<not> isLineTerminator c then DEDUPLICATION_PATTERN_replace (c # rest)
      else c # DEDUPLICATION_PATTERN_replace (d # rest))"
| "DEDUPLICATION_PATTERN_replace s = s"

text \<open>
  \<open>s.replace(new RegExp(fake, 'g'), subst)\<close> for the keys of the substitution table. Each
  key is the source text of a regular expression. The digits and \<open>@\<close> stand for
  themselves. The key \<open>$\<close> is the assertion that matches the empty string at the end of
  the input: its one match is replaced, which appends \<open>subst\<close> to the string.
\<close>

definition RegExp_replace :: "ustring \<Rightarrow> ustring \<Rightarrow> ustring \<Rightarrow> ustring" where
  "RegExp_replace fake subst s =
     (if fake = js ''$'' then s @ subst
      else concat (map (\<lambda>c. if [c] = fake then subst else [c]) s))"

section \<open>The platform\<close>

text \<open>
  \<open>new URL(url)\<close> and \<open>String.prototype.toLowerCase\<close> are functions of the platform, not
  of this program. They are the two fields of the record \<open>platform\<close>, and a platform
  \<open>P\<close> is a parameter of every function that calls one of them. A statement made for
  all \<open>P\<close> holds for the functions of the platform, whatever they return on a given
  string.

  Of the object that \<open>new URL\<close> returns, the program reads \<open>protocol\<close>, \<open>hostname\<close> and
  \<open>pathname\<close>, and the cache clears its fragment and takes \<open>toString()\<close>;
  \<open>toString_no_hash\<close> is that serialisation without the fragment. \<open>None\<close> is the
  \<open>TypeError\<close> that the constructor throws on a string that is not a URL.
\<close>

record URL =
  protocol :: ustring
  hostname :: ustring
  pathname :: ustring
  toString_no_hash :: ustring

type_synonym URL_ctor = "ustring \<Rightarrow> URL option"

record platform =
  new_URL :: URL_ctor
  toLowerCase :: "ustring \<Rightarrow> ustring"

text \<open>
  \<open>basic\<close> is an instance of the platform for the statements about concrete strings,
  all of which are made of ASCII characters.

  \<open>lower_basic\<close> maps the ASCII capitals to their small letters and keeps every other
  code unit: on a string of ASCII characters that is the result of \<open>toLowerCase\<close>.

  \<open>URL_basic\<close> follows the URL standard on strings of the form
  \<open>http(s)://host/path?query#fragment\<close> whose host is made of ASCII letters, digits,
  hyphens and dots (no empty label, no \<open>xn--\<close> label, last label not starting with a
  digit) and whose path, query and fragment use only characters that the standard
  copies unchanged, without \<open>.\<close> or \<open>..\<close> segments. A string without a scheme
  (\<open>[A-Za-z][A-Za-z0-9+.-]*:\<close>) is not a URL, for the standard as for \<open>URL_basic\<close>. Every
  other string is outside what \<open>URL_basic\<close> models, and it answers \<open>None\<close> there too.
\<close>

definition lower_basic :: "ustring \<Rightarrow> ustring" where
  "lower_basic s = map (\<lambda>c. if 65 \<le> c \<and> c \<le> 90 then c + 32 else c) s"

definition is_alpha :: "int \<Rightarrow> bool" where
  "is_alpha c = ((65 \<le> c \<and> c \<le> 90) \<or> (97 \<le> c \<and> c \<le> 122))"

definition is_scheme :: "ustring \<Rightarrow> bool" where
  "is_scheme sch =
     (case sch of [] \<Rightarrow> False
      | c # cs \<Rightarrow> is_alpha c \<and>
          list_all (\<lambda>d. is_alpha d \<or> is_digit d \<or> d = 43 \<or> d = 45 \<or> d = 46) cs)"

definition trim_c0_space :: "ustring \<Rightarrow> ustring" where
  "trim_c0_space s = rev (dropWhile (\<lambda>c. c \<le> 32) (rev (dropWhile (\<lambda>c. c \<le> 32) s)))"

definition is_host_unit :: "int \<Rightarrow> bool" where
  "is_host_unit c = (is_alpha c \<or> is_digit c \<or> c = 45 \<or> c = 46)"

definition is_plain_unit :: "int \<Rightarrow> bool" where
  "is_plain_unit c = (is_alpha c \<or> is_digit c \<or> c \<in> set (js ''/-._~!$&()*+,;=:@''))"

definition is_basic_host :: "ustring \<Rightarrow> bool" where
  "is_basic_host h =
     (h \<noteq> [] \<and> list_all is_host_unit h \<and>
      list_all (\<lambda>l. l \<noteq> [] \<and> \<not> startsWith (lower_basic l) (js ''xn--'')) (split 46 h) \<and>
      (case last (split 46 h) of [] \<Rightarrow> False | c # cs \<Rightarrow> \<not> is_digit c))"

definition is_basic_path :: "ustring \<Rightarrow> bool" where
  "is_basic_path p =
     (list_all is_plain_unit p \<and>
      list_all (\<lambda>seg. seg \<noteq> js ''.'' \<and> seg \<noteq> js ''..'') (split 47 p))"

definition URL_basic :: URL_ctor where
  "URL_basic input =
     (let s = filter (\<lambda>c. c \<noteq> 9 \<and> c \<noteq> 10 \<and> c \<noteq> 13) (trim_c0_space input);
          sch = takeWhile (\<lambda>c. c \<noteq> 58) s;
          after = dropWhile (\<lambda>c. c \<noteq> 58) s
      in if after = [] \<or> \<not> is_scheme sch then None
         else if lower_basic sch \<noteq> js ''http'' \<and> lower_basic sch \<noteq> js ''https'' then None
         else (case strip_prefix (js ''//'') (tl after) of
                 None \<Rightarrow> None
               | Some r \<Rightarrow>
                   (let stop = (\<lambda>c. c = 47 \<or> c = 63 \<or> c = 35 \<or> c = 92);
                        host = takeWhile (\<lambda>c. \<not> stop c) r;
                        r1 = dropWhile (\<lambda>c. \<not> stop c) r;
                        path = takeWhile (\<lambda>c. c \<noteq> 63 \<and> c \<noteq> 35) r1;
                        r2 = dropWhile (\<lambda>c. c \<noteq> 63 \<and> c \<noteq> 35) r1;
                        query = (if startsWith r2 (js ''?'') then takeWhile (\<lambda>c. c \<noteq> 35) r2
                                 else []);
                        frag = dropWhile (\<lambda>c. c \<noteq> 35) r2
                    in if is_basic_host host \<and> is_basic_path path \<and>
                          list_all (\<lambda>c. is_plain_unit c \<or> c = 63) query \<and>
                          list_all (\<lambda>c. is_plain_unit c \<or> c = 63 \<or> c = 35) frag
                       then Some \<lparr>protocol = lower_basic sch @ js '':'',
                                  hostname = lower_basic host,
                                  pathname = (if path = [] then js ''/'' else path),
                                  toString_no_hash = lower_basic sch @ js ''://'' @
                                    lower_basic host @
                                    (if path = [] then js ''/'' else path) @ query\<rparr>
                       else None)))"

definition basic :: platform where
  "basic = \<lparr>new_URL = URL_basic, toLowerCase = lower_basic\<rparr>"

section \<open>The result cache (CacheManager)\<close>

text \<open>
  A JavaScript \<open>Map\<close> keeps its keys in insertion order: \<open>set\<close> on a key that is present
  replaces the value in place, \<open>set\<close> on a new key appends, \<open>delete\<close> removes. The two
  maps of the cache are association lists with \<open>AList.update\<close> and \<open>AList.delete\<close>, which
  do exactly that; the order decides which of two equally old keys \<open>_evictLRU\<close> finds
  first.

  \<open>Date.now()\<close> is the argument \<open>now\<close> of each operation: the clock is read once for a
  call. Times and counters are integers.
\<close>

record 'a entry =
  data :: 'a
  timestamp :: int

record stats =
  hits :: int
  misses :: int
  evictions :: int
  sets :: int

record 'a CacheManager =
  maxEntries :: int
  ttlMs :: int
  cache :: "(ustring \<times> 'a entry) list"
  accessOrder :: "(ustring \<times> int) list"
  stats :: stats

definition new_CacheManager :: "int \<Rightarrow> int \<Rightarrow> 'a CacheManager" where
  "new_CacheManager maxE ttl =
     \<lparr>maxEntries = maxE, ttlMs = ttl, cache = [], accessOrder = [],
      stats = \<lparr>hits = 0, misses = 0, evictions = 0, sets = 0\<rparr>\<rparr>"

definition generateKey :: "platform \<Rightarrow> ustring \<Rightarrow> ustring" where
  "generateKey P url =
     (case new_URL P url of
        Some urlObj \<Rightarrow> toLowerCase P (toString_no_hash urlObj)
      | None \<Rightarrow> toLowerCase P url)"

definition isExpired :: "'a CacheManager \<Rightarrow> int \<Rightarrow> 'a entry \<Rightarrow> bool" where
  "isExpired c now e = (now - timestamp e > ttlMs c)"

text \<open>
  The loop of \<open>_evictLRU\<close> over \<open>accessOrder\<close>: \<open>lruKey\<close> starts as \<open>null\<close> and \<open>lruTime\<close> as
  \<open>Infinity\<close>, both \<open>None\<close> here; every time is less than \<open>Infinity\<close>. \<open>lru_step\<close> is the
  body of the loop.
\<close>

definition lru_step :: "ustring option \<times> int option \<Rightarrow> ustring \<times> int \<Rightarrow> ustring option \<times> int option" where
  "lru_step found entry =
     (case found of (lruKey, lruTime) \<Rightarrow>
        (case entry of (key, time) \<Rightarrow>
           if (case lruTime of None \<Rightarrow> True | Some t \<Rightarrow> time < t)
           then (Some key, Some time) else (lruKey, lruTime)))"

definition lru_scan :: "(ustring \<times> int) list \<Rightarrow> ustring option \<times> int option" where
  "lru_scan order = foldl lru_step (None, None) order"

text \<open>
  \<open>if (lruKey)\<close> tests the key for truthiness: \<open>null\<close> is falsy, and so is the empty
  string.
\<close>

definition evictLRU :: "'a CacheManager \<Rightarrow> 'a CacheManager" where
  "evictLRU c =
     (case fst (lru_scan (accessOrder c)) of
        None \<Rightarrow> c
      | Some lruKey \<Rightarrow>
          if lruKey = [] then c
          else c\<lparr>cache := AList.delete lruKey (cache c),
                 accessOrder := AList.delete lruKey (accessOrder c),
                 stats := (stats c)\<lparr>evictions := evictions (stats c) + 1\<rparr>\<rparr>)"

definition get :: "platform \<Rightarrow> 'a CacheManager \<Rightarrow> int \<Rightarrow> ustring \<Rightarrow> 'a option \<times> 'a CacheManager" where
  "get P c now url =
     (let key = generateKey P url
      in case map_of (cache c) key of
           None \<Rightarrow> (None, c\<lparr>stats := (stats c)\<lparr>misses := misses (stats c) + 1\<rparr>\<rparr>)
         | Some e \<Rightarrow>
             if isExpired c now e
             then (None, c\<lparr>cache := AList.delete key (cache c),
                            accessOrder := AList.delete key (accessOrder c),
                            stats := (stats c)\<lparr>misses := misses (stats c) + 1\<rparr>\<rparr>)
             else (Some (data e),
                   c\<lparr>accessOrder := AList.update key now (accessOrder c),
                     stats := (stats c)\<lparr>hits := hits (stats c) + 1\<rparr>\<rparr>))"

definition set_entry :: "platform \<Rightarrow> 'a CacheManager \<Rightarrow> int \<Rightarrow> ustring \<Rightarrow> 'a \<Rightarrow> 'a CacheManager" where
  "set_entry P c now url d =
     (let key = generateKey P url;
          c1 = (if int (length (cache c)) \<ge> maxEntries c \<and> map_of (cache c) key = None
                then evictLRU c else c)
      in c1\<lparr>cache := AList.update key \<lparr>data = d, timestamp = now\<rparr> (cache c1),
            accessOrder := AList.update key now (accessOrder c1),
            stats := (stats c1)\<lparr>sets := sets (stats c1) + 1\<rparr>\<rparr>)"

definition has :: "platform \<Rightarrow> 'a CacheManager \<Rightarrow> int \<Rightarrow> ustring \<Rightarrow> bool \<times> 'a CacheManager" where
  "has P c now url =
     (let key = generateKey P url
      in case map_of (cache c) key of
           None \<Rightarrow> (False, c)
         | Some e \<Rightarrow>
             if isExpired c now e
             then (False, c\<lparr>cache := AList.delete key (cache c),
                             accessOrder := AList.delete key (accessOrder c)\<rparr>)
             else (True, c))"

definition clear :: "'a CacheManager \<Rightarrow> 'a CacheManager" where
  "clear c = c\<lparr>cache := [], accessOrder := [],
               stats := \<lparr>hits = 0, misses = 0, evictions = 0, sets = 0\<rparr>\<rparr>"

subsection \<open>Snapshots (export and import)\<close>

text \<open>
  \<open>export\<close> passes an object to \<open>JSON.stringify\<close> and \<open>import\<close> starts with \<open>JSON.parse\<close>;
  both are functions of the platform. The model works on the value between them: the
  object that \<open>export\<close> builds, and the value that \<open>JSON.parse\<close> returns on the string given
  to \<open>import\<close>, or \<open>None\<close> when \<open>JSON.parse\<close> throws \<open>SyntaxError\<close>. For the payloads of this
  program (integers, strings and arrays of strings) \<open>JSON.parse\<close> returns on the output of
  \<open>JSON.stringify\<close> a value equal to the one that was serialised.

  The parsed value is one of the shapes that \<open>import\<close> tells apart: the JSON value
  \<open>null\<close>, or an object with optional \<open>entries\<close> (an array), \<open>stats\<close> and \<open>metadata\<close>. An
  element of \<open>entries\<close> is \<open>null\<close> or an object with a string \<open>key\<close>, a payload \<open>data\<close> and
  an integer \<open>timestamp\<close>. A counter that \<open>stats\<close> does not have is \<open>None\<close>. JSON values
  of other shapes (a key that is not a string, a time that is not a number) are not
  values of these types.
\<close>

datatype 'a snapshot_entry =
  NullEntry
| Entry ustring 'a int

record stats_json =
  json_hits :: "int option"
  json_misses :: "int option"
  json_evictions :: "int option"
  json_sets :: "int option"

record metadata =
  meta_maxEntries :: int
  meta_ttlMs :: int
  exportedAt :: int

datatype 'a snapshot =
  NullSnapshot
| Snapshot "'a snapshot_entry list option" "stats_json option" "metadata option"

definition export :: "'a CacheManager \<Rightarrow> int \<Rightarrow> 'a snapshot" where
  "export c now =
     Snapshot
       (Some (map (\<lambda>(key, e). Entry key (data e) (timestamp e)) (cache c)))
       (Some \<lparr>json_hits = Some (hits (stats c)), json_misses = Some (misses (stats c)),
              json_evictions = Some (evictions (stats c)), json_sets = Some (sets (stats c))\<rparr>)
       (Some \<lparr>meta_maxEntries = maxEntries c, meta_ttlMs = ttlMs c, exportedAt = now\<rparr>)"

text \<open>
  The loop of \<open>import\<close> over \<open>data.entries\<close>. Reading \<open>entry.timestamp\<close> of a \<open>null\<close> entry
  throws \<open>TypeError\<close>: the result is \<open>False\<close> with the cache as the loop has left it.
\<close>

fun import_entries :: "'a CacheManager \<Rightarrow> int \<Rightarrow> 'a snapshot_entry list \<Rightarrow> bool \<times> 'a CacheManager" where
  "import_entries c now [] = (True, c)"
| "import_entries c now (NullEntry # es) = (False, c)"
| "import_entries c now (Entry key d t # es) =
     import_entries
       (if now - t \<le> ttlMs c
        then c\<lparr>cache := AList.update key \<lparr>data = d, timestamp = t\<rparr> (cache c),
               accessOrder := AList.update key t (accessOrder c)\<rparr>
        else c)
       now es"

text \<open>\<open>{ ...this.stats, ...data.stats }\<close>: a counter of the snapshot replaces the cache's.\<close>

definition spread_stats :: "stats \<Rightarrow> stats_json \<Rightarrow> stats" where
  "spread_stats s j =
     \<lparr>hits = (case json_hits j of None \<Rightarrow> hits s | Some n \<Rightarrow> n),
      misses = (case json_misses j of None \<Rightarrow> misses s | Some n \<Rightarrow> n),
      evictions = (case json_evictions j of None \<Rightarrow> evictions s | Some n \<Rightarrow> n),
      sets = (case json_sets j of None \<Rightarrow> sets s | Some n \<Rightarrow> n)\<rparr>"

text \<open>
  \<open>import\<close>: the first component is the boolean it returns. \<open>JSON.parse\<close> is the first
  statement of the \<open>try\<close> block, \<open>this.clear()\<close> the third; an exception after that is
  caught with the cache already cleared.
\<close>

definition "import" :: "'a CacheManager \<Rightarrow> int \<Rightarrow> 'a snapshot option \<Rightarrow> bool \<times> 'a CacheManager" where
  "import c now parsed =
     (case parsed of
        None \<Rightarrow> (False, c)
      | Some NullSnapshot \<Rightarrow> (False, clear c)
      | Some (Snapshot es st md) \<Rightarrow>
          (case (case es of None \<Rightarrow> (True, clear c)
                 | Some l \<Rightarrow> import_entries (clear c) now l) of
             (False, c1) \<Rightarrow> (False, c1)
           | (True, c1) \<Rightarrow>
               (True, (case st of None \<Rightarrow> c1
                       | Some j \<Rightarrow> c1\<lparr>stats := spread_stats (stats c1) j\<rparr>))))"

section \<open>Analyses and assessments\<close>

text \<open>
  A pass returns an analysis: a score, the threats it has found and, for the URL pass,
  details of the URL (\<open>None\<close> is the empty object \<open>{}\<close> that the pass starts with).
  \<open>analyze\<close> returns an assessment, which adds the level, the time of the analysis and
  the error message.
\<close>

record url_details =
  details_protocol :: ustring
  details_domain :: ustring
  isHTTPS :: bool
  subdomainCount :: int

record analysis =
  score :: int
  threats :: "ustring list"
  details :: "url_details option"

record assessment = analysis +
  level :: RiskLevel
  result_timestamp :: int
  error :: "ustring option"

text \<open>A rule that fires adds its weight to the score and pushes its message.\<close>

definition fire :: "int \<Rightarrow> ustring \<Rightarrow> analysis \<Rightarrow> analysis" where
  "fire w msg a = a\<lparr>score := score a + w, threats := threats a @ [msg]\<rparr>"

text \<open>\<open>if (condition) { analysis.score += w; analysis.threats.push(msg); }\<close>\<close>

definition rule :: "bool \<Rightarrow> int \<Rightarrow> ustring \<Rightarrow> analysis \<Rightarrow> analysis" where
  "rule condition w msg a = (if condition then fire w msg a else a)"

section \<open>The state of the detector (PhishingDetector)\<close>

text \<open>
  The constructor stores the configuration, creates the cache when caching is enabled,
  sets \<open>_dataLoaded\<close> to \<open>false\<close> and sets the four tables \<open>_legitimateDomains\<close>,
  \<open>_homographs\<close>, \<open>_charSubstitutions\<close> and \<open>_keyboardProximity\<close> to \<open>null\<close>. The
  configuration is never assigned again; it is the argument \<open>cfg\<close> of the functions
  below. The cache, the flag and the tables change, and they are the state \<open>det\<close> of the
  detector; \<open>None\<close> is \<open>null\<close>. The memo table \<open>_levenshteinCache\<close> does not change what
  any method returns (see \<open>getLevenshteinDistance\<close>) and is left out of the state.
\<close>

record PhishingDetector =
  this_cache :: "assessment CacheManager option"
  dataLoaded :: bool
  this_legitimateDomains :: "ustring list option"
  this_homographs :: "(ustring \<times> ustring list) list option"
  this_charSubstitutions :: "(ustring \<times> ustring) list option"
  this_keyboardProximity :: "(int \<times> ustring) list option"

definition new_PhishingDetector :: "config \<Rightarrow> PhishingDetector" where
  "new_PhishingDetector cfg =
     \<lparr>this_cache =
        (if ENABLE_CACHING (features cfg)
         then Some (new_CacheManager (CACHE_MAX_ENTRIES (performance cfg))
                      (CACHE_TTL_MS (performance cfg)))
         else None),
      dataLoaded = False,
      this_legitimateDomains = None, this_homographs = None,
      this_charSubstitutions = None, this_keyboardProximity = None\<rparr>"

subsection \<open>Detection data (PhishingDetector._ensureDataLoaded)\<close>

definition legitimateDomains :: "ustring list" where
  "legitimateDomains = map js
     [''google.com'', ''facebook.com'', ''microsoft.com'', ''apple.com'', ''amazon.com'',
      ''twitter.com'', ''instagram.com'', ''youtube.com'', ''linkedin.com'', ''tiktok.com'',
      ''zoom.us'', ''dropbox.com'', ''adobe.com'', ''salesforce.com'', ''slack.com'',
      ''paypal.com'', ''stripe.com'', ''square.com'', ''chase.com'', ''bankofamerica.com'',
      ''wellsfargo.com'', ''citibank.com'', ''venmo.com'', ''cashapp.com'', ''coinbase.com'',
      ''ebay.com'', ''etsy.com'', ''walmart.com'', ''target.com'', ''bestbuy.com'',
      ''shopify.com'', ''alibaba.com'', ''aliexpress.com'',
      ''github.com'', ''gitlab.com'', ''stackoverflow.com'', ''npmjs.com'', ''pypi.org'',
      ''docker.com'', ''heroku.com'', ''vercel.com'', ''netlify.com'',
      ''netflix.com'', ''spotify.com'', ''hulu.com'', ''twitch.tv'', ''discord.com'',
      ''reddit.com'', ''imgur.com'', ''medium.com'',
      ''wikipedia.org'', ''coursera.org'', ''udemy.com'', ''khanacademy.org'',
      ''irs.gov'', ''usps.com'', ''gov.uk'', ''canada.ca'']"

text \<open>
  The homograph table: a Latin letter and its lookalike alternates, each alternate a
  string of one code unit (Cyrillic, Greek and Latin-extended letters by code point).
  The alternates of \<open>o\<close> end with the ASCII digit \<open>0\<close> (48), those of \<open>i\<close> with the ASCII
  digit \<open>1\<close> (49) and the ASCII letter \<open>l\<close> (108), as in the source.
\<close>

definition homographs :: "(ustring \<times> ustring list) list" where
  "homographs =
     [(js ''a'', [[0x430], [0x251], [0x3B1]]),
      (js ''e'', [[0x435], [0x117], [0x113]]),
      (js ''o'', [[0x43E], [0x3BF], js ''0'']),
      (js ''p'', [[0x440], [0x3C1]]),
      (js ''c'', [[0x441], [0x3F2]]),
      (js ''i'', [[0x456], [0x131], js ''1'', js ''l'']),
      (js ''x'', [[0x445], [0x3C7]]),
      (js ''y'', [[0x443], [0x4AF]]),
      (js ''h'', [[0x4BB]]),
      (js ''b'', [[0x44C]]),
      (js ''s'', [[0x455]]),
      (js ''j'', [[0x458]])]"

text \<open>
  The substitution table in the order \<open>Object.entries\<close> lists it: the integer-like keys
  in ascending order, then the other keys in insertion order, which is the order of the
  source.
\<close>

definition charSubstitutions :: "(ustring \<times> ustring) list" where
  "charSubstitutions =
     [(js ''0'', js ''o''), (js ''1'', js ''il''), (js ''3'', js ''e''), (js ''5'', js ''s''),
      (js ''8'', js ''b''), (js ''@'', js ''a''), (js ''$'', js ''s'')]"

definition keyboardProximity :: "(int \<times> ustring) list" where
  "keyboardProximity = map (\<lambda>(k, v). (of_char k, js v))
     [(CHR ''q'', ''wa''), (CHR ''w'', ''qesa''), (CHR ''e'', ''wrds''),
      (CHR ''r'', ''etfd''), (CHR ''t'', ''rygf''), (CHR ''y'', ''tuhg''),
      (CHR ''u'', ''yijh''), (CHR ''i'', ''uokj''), (CHR ''o'', ''iplk''),
      (CHR ''p'', ''ol''), (CHR ''a'', ''qwsz''), (CHR ''s'', ''awedzx''),
      (CHR ''d'', ''serfxc''), (CHR ''f'', ''drtgcv''),
      (CHR ''g'', ''ftyhvb''), (CHR ''h'', ''gyujbn''),
      (CHR ''j'', ''huiknm''), (CHR ''k'', ''jiolm''),
      (CHR ''l'', ''kop''), (CHR ''z'', ''asx''), (CHR ''x'', ''zsdc''),
      (CHR ''c'', ''xdfv''), (CHR ''v'', ''cfgb''), (CHR ''b'', ''vghn''),
      (CHR ''n'', ''bhjm''), (CHR ''m'', ''njk'')]"

text \<open>
  \<open>_ensureDataLoaded\<close> returns at once when \<open>_dataLoaded\<close> is set; otherwise it assigns
  the four tables and sets the flag.
\<close>

definition ensureDataLoaded :: "PhishingDetector \<Rightarrow> PhishingDetector" where
  "ensureDataLoaded det =
     (if dataLoaded det then det
      else det\<lparr>this_legitimateDomains := Some legitimateDomains,
               this_homographs := Some homographs,
               this_charSubstitutions := Some charSubstitutions,
               this_keyboardProximity := Some keyboardProximity,
               dataLoaded := True\<rparr>)"

text \<open>
  Iterating over a table that is \<open>null\<close>, or reading an entry of it, throws
  \<open>TypeError\<close>. A method that can throw returns either the error or its result.
\<close>

datatype error = TypeError

section \<open>String metrics of the detector\<close>

text \<open>
  \<open>_calculateLevenshteinDistance\<close> fills a matrix with one row for each unit of \<open>str2\<close>
  and one column for each unit of \<open>str1\<close>. \<open>lev_cells\<close> is the inner loop over \<open>j\<close>: it reads
  the row above (\<open>diag\<close> is \<open>matrix[i-1][j-1]\<close>, \<open>up\<close> is \<open>matrix[i-1][j]\<close>) and the cell to
  the left. \<open>lev_row\<close> is one round of the outer loop, which starts the row with
  \<open>matrix[i][0] = i\<close>.
\<close>

fun lev_cells :: "int \<Rightarrow> ustring \<Rightarrow> nat list \<Rightarrow> nat \<Rightarrow> nat list" where
  "lev_cells c (x # xs) (diag # up # prev) left =
     (let cell = (if c = x then diag else min (diag + 1) (min (left + 1) (up + 1)))
      in cell # lev_cells c xs (up # prev) cell)"
| "lev_cells c xs prev left = []"

definition lev_row :: "ustring \<Rightarrow> nat list \<Rightarrow> int \<Rightarrow> nat list" where
  "lev_row str1 prev c =
     (case prev of [] \<Rightarrow> []
      | p0 # rest \<Rightarrow> (p0 + 1) # lev_cells c str1 prev (p0 + 1))"

definition calculateLevenshteinDistance :: "ustring \<Rightarrow> ustring \<Rightarrow> nat" where
  "calculateLevenshteinDistance str1 str2 =
     last (foldl (lev_row str1) [0 ..< Suc (length str1)] str2)"

text \<open>
  \<open>_getLevenshteinDistance\<close> memoises the distance under the key \<open>str1:str2\<close>. Its first
  argument is always the first label of a legitimate domain, which has no colon, so
  two different pairs never share a key and the memo table returns what the
  computation returns.
\<close>

definition getLevenshteinDistance :: "ustring \<Rightarrow> ustring \<Rightarrow> nat" where
  "getLevenshteinDistance str1 str2 = calculateLevenshteinDistance str1 str2"

text \<open>\<open>_checkCharSubstitution\<close> starts with \<open>Object.entries(this._charSubstitutions)\<close>.\<close>

definition checkCharSubstitution :: "PhishingDetector \<Rightarrow> ustring \<Rightarrow> ustring \<Rightarrow> error + bool" where
  "checkCharSubstitution det current legitimate =
     (case this_charSubstitutions det of
        None \<Rightarrow> Inl TypeError
      | Some table \<Rightarrow>
          Inr (foldl (\<lambda>normalized (fake, subst). RegExp_replace fake subst normalized)
                 current table = legitimate))"

text \<open>
  The loop of \<open>_detectKeyboardProximityAttack\<close> over the positions that both strings
  have. It reads \<open>this._keyboardProximity[legitChar]\<close> at the first position where the
  two characters differ, not before.
\<close>

fun proximity_loop ::
  "(int \<times> ustring) list option \<Rightarrow> rat \<Rightarrow> (int \<times> int) list \<Rightarrow> error + rat" where
  "proximity_loop table matchScore [] = Inr matchScore"
| "proximity_loop table matchScore ((currChar, legitChar) # rest) =
     (if currChar = legitChar then proximity_loop table (matchScore + 1) rest
      else
        (case table of
           None \<Rightarrow> Inl TypeError
         | Some proximity \<Rightarrow>
             proximity_loop table
               (if (case map_of proximity legitChar of
                      None \<Rightarrow> False
                    | Some adjacent \<Rightarrow> currChar \<in> set adjacent)
                then matchScore + 1 / 2 else matchScore)
               rest))"

definition detectKeyboardProximityAttack ::
  "config \<Rightarrow> PhishingDetector \<Rightarrow> ustring \<Rightarrow> ustring \<Rightarrow> error + bool" where
  "detectKeyboardProximityAttack cfg det current legitimate =
     (if \<bar>int (length current) - int (length legitimate)\<bar> > 2 then Inr False
      else
        (case proximity_loop (this_keyboardProximity det) 0 (zip current legitimate) of
           Inl e \<Rightarrow> Inl e
         | Inr matchScore \<Rightarrow>
             (let maxLen = max (length current) (length legitimate)
              in Inr (matchScore / rat_of_nat maxLen >
                      KEYBOARD_PROXIMITY_THRESHOLD (typosquatting cfg)))))"

definition checkDoubledChars :: "ustring \<Rightarrow> ustring \<Rightarrow> bool" where
  "checkDoubledChars current legitimate =
     (DEDUPLICATION_PATTERN_replace current = legitimate)"

definition firstLabel :: "ustring \<Rightarrow> ustring" where
  "firstLabel domain = (case split 46 domain of [] \<Rightarrow> [] | w # ws \<Rightarrow> w)"

text \<open>
  The body of the loop of \<open>_detectTyposquatting\<close> for one legitimate domain: \<open>True\<close>
  where the body returns that domain, \<open>False\<close> where it goes on to the next one.
\<close>

definition typosquats ::
  "config \<Rightarrow> PhishingDetector \<Rightarrow> ustring \<Rightarrow> ustring \<Rightarrow> error + bool" where
  "typosquats cfg det currentBase legitimate =
     (let legitBase = firstLabel legitimate
      in if legitBase = currentBase then Inr False
         else if \<bar>int (length legitBase) - int (length currentBase)\<bar> > 3 then Inr False
         else
           (let distance = getLevenshteinDistance legitBase currentBase
            in if distance > 0 \<and>
                  distance \<le> MAX_LEVENSHTEIN_DISTANCE (typosquatting cfg) \<and>
                  length legitBase \<ge> MIN_DOMAIN_LENGTH (typosquatting cfg) then Inr True
               else if includes_str currentBase legitBase \<and> currentBase \<noteq> legitBase
               then Inr True
               else
                 (case checkCharSubstitution det currentBase legitBase of
                    Inl e \<Rightarrow> Inl e
                  | Inr substituted \<Rightarrow>
                      if substituted then Inr True
                      else
                        (case detectKeyboardProximityAttack cfg det currentBase legitBase of
                           Inl e \<Rightarrow> Inl e
                         | Inr adjacent \<Rightarrow>
                             if adjacent then Inr True
                             else Inr (checkDoubledChars currentBase legitBase)))))"

text \<open>
  The loop of \<open>_detectTyposquatting\<close> over the legitimate domains, and the method:
  \<open>for (const legitimate of this._legitimateDomains)\<close> throws when the table is \<open>null\<close>.
  The result \<open>None\<close> is the \<open>null\<close> that the method returns when no domain matches.
\<close>

fun typosquatting_loop ::
  "config \<Rightarrow> PhishingDetector \<Rightarrow> ustring \<Rightarrow> ustring list \<Rightarrow> error + ustring option" where
  "typosquatting_loop cfg det currentBase [] = Inr None"
| "typosquatting_loop cfg det currentBase (legitimate # rest) =
     (case typosquats cfg det currentBase legitimate of
        Inl e \<Rightarrow> Inl e
      | Inr found \<Rightarrow>
          if found then Inr (Some legitimate)
          else typosquatting_loop cfg det currentBase rest)"

definition detectTyposquatting ::
  "config \<Rightarrow> PhishingDetector \<Rightarrow> ustring \<Rightarrow> error + ustring option" where
  "detectTyposquatting cfg det domain =
     (case this_legitimateDomains det of
        None \<Rightarrow> Inl TypeError
      | Some domains \<Rightarrow> typosquatting_loop cfg det (firstLabel domain) domains)"

section \<open>Pass 1: the URL (PhishingDetector._analyzeURL)\<close>

definition isSensitivePath :: "ustring \<Rightarrow> bool" where
  "isSensitivePath path =
     (includes_str path (js ''login'') \<or> includes_str path (js ''payment'') \<or>
      includes_str path (js ''checkout''))"

definition hasSuspiciousTLD :: "config \<Rightarrow> ustring \<Rightarrow> bool" where
  "hasSuspiciousTLD cfg domain =
     list_ex (\<lambda>tld. endsWith domain tld) (SUSPICIOUS_TLDS (patterns cfg))"

definition getSubdomainCount :: "ustring \<Rightarrow> int" where
  "getSubdomainCount domain = int (length (split 46 domain)) - 2"

definition findSuspiciousKeywords :: "config \<Rightarrow> ustring \<Rightarrow> ustring list" where
  "findSuspiciousKeywords cfg url =
     filter (\<lambda>kw. includes_str url kw) (SUSPICIOUS_KEYWORDS (patterns cfg))"

definition isURLShortener :: "config \<Rightarrow> ustring \<Rightarrow> bool" where
  "isURLShortener cfg domain =
     list_ex (\<lambda>sh. includes_str domain sh) (URL_SHORTENERS (patterns cfg))"

definition hasEmbeddedURL :: "ustring \<Rightarrow> bool" where
  "hasEmbeddedURL path = includes_str path (js ''http'')"

text \<open>
  \<open>_detectHomographAttack\<close> returns on a punycode label before it reads the table;
  otherwise it starts with \<open>Object.entries(this._homographs)\<close>.
\<close>

definition detectHomographAttack :: "PhishingDetector \<Rightarrow> ustring \<Rightarrow> error + bool" where
  "detectHomographAttack det domain =
     (if PUNYCODE_PATTERN_test domain then Inr True
      else
        (case this_homographs det of
           None \<Rightarrow> Inl TypeError
         | Some table \<Rightarrow>
             Inr (list_ex (\<lambda>(latin, alts). list_ex (\<lambda>alt. includes_str domain alt) alts)
                    table)))"

text \<open>
  The body of the \<open>try\<close> block of \<open>_analyzeURL\<close>, after \<open>new URL(url)\<close> has returned
  \<open>urlObj\<close>: the ten rules in their order. The rules change the analysis as they fire.
  When the homograph rule or the typosquatting rule throws, the \<open>catch\<close> block logs the
  error and the analysis is returned as the rules before have left it, without the
  details.
\<close>

definition analyzeURL_rules ::
  "platform \<Rightarrow> config \<Rightarrow> PhishingDetector \<Rightarrow> ustring \<Rightarrow> URL \<Rightarrow> analysis" where
  "analyzeURL_rules P cfg det url urlObj =
     (let domain = toLowerCase P (hostname urlObj);
          path = toLowerCase P (pathname urlObj);
          fullURL = toLowerCase P url;
          w = weights cfg;
          a0 = \<lparr>score = 0, threats = [], details = None\<rparr>;
          a1 = rule (protocol urlObj \<noteq> js ''https:'' \<and> isSensitivePath path)
              (NON_HTTPS_SENSITIVE w)
              (js ''Non-HTTPS connection on sensitive page'') a0;
          a2 = rule (IP_ADDRESS_PATTERN_test url)
              (IP_ADDRESS_DOMAIN w)
              (js ''Using IP address instead of domain name'') a1;
          a3 = rule (hasSuspiciousTLD cfg domain)
              (SUSPICIOUS_TLD w) (js ''Suspicious top-level domain'') a2;
          subdomains = getSubdomainCount domain;
          a4 = rule (subdomains > 3)
              (EXCESSIVE_SUBDOMAINS w) (js ''Excessive subdomains detected'') a3;
          keywords = findSuspiciousKeywords cfg fullURL;
          a5 = rule (length keywords > 0)
              (int (length keywords) * SUSPICIOUS_KEYWORD w)
              (js ''Suspicious keywords: '' @ join (js '', '') (take 3 keywords)) a4
      in case detectHomographAttack det domain of
           Inl e \<Rightarrow> a5
         | Inr homograph \<Rightarrow>
             (let a6 = rule homograph
                    (HOMOGRAPH_ATTACK w)
                    (js ''Possible homograph attack (lookalike characters)'') a5
              in case detectTyposquatting cfg det domain of
                   Inl e \<Rightarrow> a6
                 | Inr found \<Rightarrow>
                     (let a7 = (case found of
                                  Some typoTarget \<Rightarrow>
                                    fire (TYPOSQUATTING_WEIGHT w)
                                      (js ''Possible typosquatting: similar to '' @ typoTarget) a6
                                | None \<Rightarrow> a6);
                          a8 = rule (includes_str fullURL (js ''@''))
                              (URL_AT_SYMBOL w)
                              (js ''URL contains @ symbol (possible redirect)'') a7;
                          a9 = rule (isURLShortener cfg domain)
                              (URL_SHORTENER w) (js ''URL shortener detected'') a8;
                          a10 = rule (hasEmbeddedURL path)
                              (EMBEDDED_URL w) (js ''Embedded URL in path (redirect chain)'') a9
                      in a10\<lparr>details :=
                               Some \<lparr>details_protocol = protocol urlObj, details_domain = domain,
                                     isHTTPS = (protocol urlObj = js ''https:''),
                                     subdomainCount = subdomains\<rparr>\<rparr>)))"

text \<open>
  \<open>_analyzeURL\<close>: when \<open>new URL(url)\<close> throws, the \<open>catch\<close> block logs the error and the
  analysis is returned as it was initialised.
\<close>

definition analyzeURL :: "platform \<Rightarrow> config \<Rightarrow> PhishingDetector \<Rightarrow> ustring \<Rightarrow> analysis" where
  "analyzeURL P cfg det url =
     (case new_URL P url of
        None \<Rightarrow> \<lparr>score = 0, threats = [], details = None\<rparr>
      | Some urlObj \<Rightarrow> analyzeURL_rules P cfg det url urlObj)"

section \<open>The document and passes 2 to 4\<close>

text \<open>
  The document handle is modelled by what the passes read from it: the text and markup
  of the body (\<open>None\<close> when \<open>doc.body\<close> is null), whether the body has the
  \<open>oncontextmenu\<close> attribute, and the \<open>iframe\<close>, \<open>a[href]\<close>, \<open>script\<close> and \<open>form\<close> elements in
  document order.
\<close>

record Body =
  innerText :: ustring
  innerHTML :: ustring
  oncontextmenu :: bool

record Iframe =
  style_display :: ustring
  style_visibility :: ustring
  offsetWidth :: int
  offsetHeight :: int

record Link =
  link_textContent :: ustring
  link_href :: ustring

record Input =
  input_type :: ustring
  input_name :: ustring
  input_id :: ustring
  input_placeholder :: ustring

record Form =
  form_inputs :: "Input list"
  form_action :: ustring

record Document =
  body :: "Body option"
  iframes :: "Iframe list"
  links :: "Link list"
  scripts :: "ustring list"
  forms :: "Form list"

definition findUrgencyPhrases :: "platform \<Rightarrow> config \<Rightarrow> ustring \<Rightarrow> ustring list" where
  "findUrgencyPhrases P cfg text =
     filter (\<lambda>phrase. includes_str text (toLowerCase P phrase)) (URGENCY_PHRASES (patterns cfg))"

definition findHiddenIframes :: "Document \<Rightarrow> nat" where
  "findHiddenIframes doc =
     length (filter (\<lambda>iframe. style_display iframe = js ''none'' \<or>
                               style_visibility iframe = js ''hidden'' \<or>
                               offsetWidth iframe = 0 \<or> offsetHeight iframe = 0)
               (iframes doc))"

text \<open>
  \<open>_findMisleadingLinks\<close> iterates over \<open>this._legitimateDomains\<close> inside its loop over
  the links: with the table \<open>null\<close> it throws at the first link, and returns 0 when there
  is no link.
\<close>

definition findMisleadingLinks :: "platform \<Rightarrow> PhishingDetector \<Rightarrow> Document \<Rightarrow> error + nat" where
  "findMisleadingLinks P det doc =
     (case this_legitimateDomains det of
        None \<Rightarrow> if links doc = [] then Inr 0 else Inl TypeError
      | Some domains \<Rightarrow>
          Inr (length (filter (\<lambda>link.
                 let displayText = toLowerCase P (link_textContent link);
                     actualHref = toLowerCase P (link_href link)
                 in list_ex (\<lambda>domain. includes_str displayText domain \<and>
                                       \<not> includes_str actualHref domain) domains)
                (links doc))))"

definition findObfuscatedScripts :: "Document \<Rightarrow> nat" where
  "findObfuscatedScripts doc =
     length (filter (\<lambda>content. includes_str content (js ''eval('') \<or>
                                includes_str content (js ''unescape(''))
               (scripts doc))"

text \<open>
  \<open>_analyzeContent\<close>: when \<open>_findMisleadingLinks\<close> throws, the \<open>catch\<close> block logs the error
  and the analysis is returned as the three rules before have left it.
\<close>

definition analyzeContent :: "platform \<Rightarrow> config \<Rightarrow> PhishingDetector \<Rightarrow> Document \<Rightarrow> analysis" where
  "analyzeContent P cfg det doc =
     (let bodyText = (case body doc of None \<Rightarrow> [] | Some b \<Rightarrow> toLowerCase P (innerText b));
          w = weights cfg;
          a0 = \<lparr>score = 0, threats = [], details = None\<rparr>;
          urgencyMatches = findUrgencyPhrases P cfg bodyText;
          a1 = rule (length urgencyMatches > 0)
              (int (length urgencyMatches) * URGENCY_PHRASE w)
              (js ''Urgency tactics: '' @ decimal (length urgencyMatches) @
              js '' phrases'') a0;
          exclamationCount = length (filter (\<lambda>c. c = 33) bodyText);
          a2 = rule (exclamationCount > 10)
              (EXCESSIVE_EXCLAMATIONS w) (js ''Excessive exclamation marks'') a1;
          hiddenIframes = findHiddenIframes doc;
          a3 = rule (hiddenIframes > 0)
              (int hiddenIframes * HIDDEN_IFRAME w)
              (decimal hiddenIframes @ js '' hidden iframe(s) detected'') a2
      in case findMisleadingLinks P det doc of
           Inl e \<Rightarrow> a3
         | Inr misleadingLinks \<Rightarrow>
             (let a4 = rule (misleadingLinks > 0)
                    (int misleadingLinks * MISLEADING_LINK w)
                    (decimal misleadingLinks @ js '' misleading link(s)'') a3;
                  obfuscatedScripts = findObfuscatedScripts doc;
                  a5 = rule (obfuscatedScripts > 0)
                    (int obfuscatedScripts * OBFUSCATED_SCRIPT w)
                    (decimal obfuscatedScripts @ js '' obfuscated script(s)'') a4
              in a5))"

text \<open>
  \<open>_analyzeForm\<close> reads \<open>this._legitimateDomains\<close> for a form with an email field and a
  password field, and throws there when the table is \<open>null\<close>.
\<close>

definition analyzeForm ::
  "platform \<Rightarrow> config \<Rightarrow> PhishingDetector \<Rightarrow> Form \<Rightarrow> URL \<Rightarrow> error + analysis" where
  "analyzeForm P cfg det form urlObj =
     (let w = weights cfg;
          combined = (\<lambda>input. toLowerCase P (input_type input @ js '' '' @ input_name input @
                        js '' '' @ input_id input @ js '' '' @ input_placeholder input));
          hasPassword = list_ex (\<lambda>input. input_type input = js ''password'' \<or>
                           includes_str (combined input) (js ''password'')) (form_inputs form);
          hasEmail = list_ex (\<lambda>input. input_type input = js ''email'' \<or>
                        includes_str (combined input) (js ''email'')) (form_inputs form);
          hasCreditCard = list_ex (\<lambda>input. includes_str (combined input) (js ''card'') \<or>
                             includes_str (combined input) (js ''cvv'')) (form_inputs form);
          hasSSN = list_ex (\<lambda>input. includes_str (combined input) (js ''ssn'') \<or>
                      includes_str (combined input) (js ''social'')) (form_inputs form);
          isExternalAction = (form_action form \<noteq> [] \<and>
                              \<not> includes_str (form_action form) (hostname urlObj));
          r0 = \<lparr>score = 0, threats = [], details = None\<rparr>;
          r1 = rule (hasPassword \<and> protocol urlObj \<noteq> js ''https:'')
              (PASSWORD_NO_HTTPS w) (js ''Password field on non-HTTPS page'') r0;
          r2 = rule (isExternalAction \<and> (hasPassword \<or> hasEmail \<or> hasCreditCard))
              (EXTERNAL_FORM_ACTION w)
              (js ''Sensitive form submits to external domain'') r1;
          requests = (\<lambda>r3.
              let r4 = rule (hasCreditCard)
                    (CREDIT_CARD_REQUEST w) (js ''Credit card information requested'') r3;
                  r5 = rule (hasSSN)
                    (SSN_REQUEST w) (js ''Social Security Number requested'') r4
              in r5)
      in if hasEmail \<and> hasPassword
         then (case this_legitimateDomains det of
                 None \<Rightarrow> Inl TypeError
               | Some domains \<Rightarrow>
                   (let isKnownDomain = list_ex (\<lambda>d. includes_str (hostname urlObj) d) domains
                    in Inr (requests
                         (if protocol urlObj = js ''https:'' \<and> isKnownDomain
                          then r2\<lparr>score := score r2 + HTTPS_LOGIN_KNOWN w\<rparr>
                          else if protocol urlObj = js ''https:''
                          then r2\<lparr>score := score r2 + HTTPS_LOGIN_UNKNOWN w\<rparr>
                          else fire (HTTP_LOGIN w) (js ''Login form on non-HTTPS page'') r2))))
         else Inr (requests r2))"

text \<open>
  \<open>_analyzeForms\<close>: \<open>new URL(url)\<close> is called before the loop over the forms; when it
  throws, the \<open>catch\<close> block leaves the analysis empty. \<open>forms_loop\<close> is the loop: it adds
  what \<open>_analyzeForm\<close> returns for each form, and when \<open>_analyzeForm\<close> throws, the \<open>catch\<close>
  block returns the analysis with the forms before.
\<close>

fun forms_loop ::
  "platform \<Rightarrow> config \<Rightarrow> PhishingDetector \<Rightarrow> URL \<Rightarrow> analysis \<Rightarrow> Form list \<Rightarrow> analysis" where
  "forms_loop P cfg det urlObj a [] = a"
| "forms_loop P cfg det urlObj a (form # rest) =
     (case analyzeForm P cfg det form urlObj of
        Inl e \<Rightarrow> a
      | Inr formData \<Rightarrow>
          forms_loop P cfg det urlObj
            (a\<lparr>score := score a + score formData,
               threats := threats a @ threats formData\<rparr>)
            rest)"

definition analyzeForms ::
  "platform \<Rightarrow> config \<Rightarrow> PhishingDetector \<Rightarrow> Document \<Rightarrow> ustring \<Rightarrow> analysis" where
  "analyzeForms P cfg det doc url =
     (case new_URL P url of
        None \<Rightarrow> \<lparr>score = 0, threats = [], details = None\<rparr>
      | Some urlObj \<Rightarrow>
          forms_loop P cfg det urlObj \<lparr>score = 0, threats = [], details = None\<rparr> (forms doc))"

definition analyzeBehavior :: "config \<Rightarrow> Document \<Rightarrow> analysis" where
  "analyzeBehavior cfg doc =
     (let w = weights cfg;
          bodyHTML = (case body doc of None \<Rightarrow> [] | Some b \<Rightarrow> innerHTML b);
          a0 = \<lparr>score = 0, threats = [], details = None\<rparr>;
          a1 = rule (includes_str bodyHTML (js ''submit()''))
              (AUTO_SUBMIT_FORM w) (js ''Auto-submitting form detected'') a0;
          a2 = rule (includes_str bodyHTML (js ''window.open(''))
              (POPUP_WINDOW w) (js ''Popup window code detected'') a1;
          a3 = rule ((case body doc of None \<Rightarrow> False | Some b \<Rightarrow> oncontextmenu b))
              (RIGHT_CLICK_DISABLED w) (js ''Right-click disabled'') a2;
          a4 = rule (includes_str bodyHTML (js ''clipboard''))
              (CLIPBOARD_ACCESS w) (js ''Clipboard access detected'') a3
      in a4)"

section \<open>The detection engine (PhishingDetector.analyze)\<close>

definition mergeAnalysis :: "assessment \<Rightarrow> analysis \<Rightarrow> assessment" where
  "mergeAnalysis results a =
     results\<lparr>score := score results + score a, threats := threats results @ threats a\<rparr>"

definition createSafeResult :: "int \<Rightarrow> assessment" where
  "createSafeResult now =
     \<lparr>score = 0, threats = [], details = None, level = Safe, result_timestamp = now,
      error = Some (js ''Invalid input'')\<rparr>"

text \<open>
  The passes of \<open>analyze\<close> after a cache miss, in the state \<open>det\<close> that
  \<open>_ensureDataLoaded\<close> has left: the URL pass always, the three passes over the
  document when one is given, then the level.
\<close>

definition runPasses ::
  "platform \<Rightarrow> config \<Rightarrow> PhishingDetector \<Rightarrow> int \<Rightarrow> ustring \<Rightarrow> Document option \<Rightarrow> assessment" where
  "runPasses P cfg det now url doc =
     (let r0 = \<lparr>score = 0, threats = [], details = None, level = Safe,
                result_timestamp = now, error = None\<rparr>;
          r1 = mergeAnalysis r0 (analyzeURL P cfg det url);
          r4 = (case doc of
                  None \<Rightarrow> r1
                | Some d \<Rightarrow>
                    mergeAnalysis
                      (mergeAnalysis (mergeAnalysis r1 (analyzeContent P cfg det d))
                         (analyzeForms P cfg det d url))
                      (analyzeBehavior cfg d))
      in r4\<lparr>level := getRiskLevel cfg (score r4)\<rparr>)"

text \<open>
  \<open>analyze\<close> returns the assessment and leaves the detector changed; the model returns
  both. The result is \<open>None\<close> where the source returns the \<open>null\<close> of \<open>cache.get\<close>. On an
  empty string and on a cache hit the tables are not loaded; after a miss they are.
\<close>

definition analyze ::
  "platform \<Rightarrow> config \<Rightarrow> PhishingDetector \<Rightarrow> int \<Rightarrow> ustring \<Rightarrow> Document option
     \<Rightarrow> assessment option \<times> PhishingDetector" where
  "analyze P cfg det now url doc =
     (if url = [] then (Some (createSafeResult now), det)
      else
        (case this_cache det of
           None \<Rightarrow>
             (let det1 = ensureDataLoaded det
              in (Some (runPasses P cfg det1 now url doc), det1))
         | Some c \<Rightarrow>
             (case has P c now url of
                (True, c1) \<Rightarrow>
                  (case get P c1 now url of (r, c2) \<Rightarrow> (r, det\<lparr>this_cache := Some c2\<rparr>))
              | (False, c1) \<Rightarrow>
                  (let det1 = ensureDataLoaded (det\<lparr>this_cache := Some c1\<rparr>);
                       results = runPasses P cfg det1 now url doc
                   in (Some results,
                       det1\<lparr>this_cache := Some (set_entry P c1 now url results)\<rparr>)))))"

section \<open>Notions for the properties\<close>

text \<open>
  The two maps of a cache hold the same keys, and a \<open>Map\<close> holds a key once: an
  invariant of the representation, true of a new cache and kept by every operation.
\<close>

definition cache_ok :: "'a CacheManager \<Rightarrow> bool" where
  "cache_ok c =
     (distinct (map fst (cache c)) \<and> distinct (map fst (accessOrder c)) \<and>
      fst ` set (cache c) = fst ` set (accessOrder c))"

text \<open>
  The non-expired entries of a snapshot, in the words of the specification: the
  entries whose age at the time of the import is at most the time to live, as cache
  entries, in the order of the snapshot.
\<close>

fun live_entries :: "int \<Rightarrow> int \<Rightarrow> 'a snapshot_entry list \<Rightarrow> (ustring \<times> 'a entry) list" where
  "live_entries ttl now [] = []"
| "live_entries ttl now (NullEntry # es) = live_entries ttl now es"
| "live_entries ttl now (Entry key d t # es) =
     (if now - t \<le> ttl then [(key, \<lparr>data = d, timestamp = t\<rparr>)] else []) @
     live_entries ttl now es"

text \<open>The counters of a new or cleared cache.\<close>

definition zero_stats :: stats where
  "zero_stats = \<lparr>hits = 0, misses = 0, evictions = 0, sets = 0\<rparr>"

text \<open>
  The tables of a detector are loaded: each holds the value that \<open>_ensureDataLoaded\<close>
  assigns. That is the state of every detector on which \<open>_ensureDataLoaded\<close> has run.
\<close>

definition tablesLoaded :: "PhishingDetector \<Rightarrow> bool" where
  "tablesLoaded det =
     (this_legitimateDomains det = Some legitimateDomains \<and>
      this_homographs det = Some homographs \<and>
      this_charSubstitutions det = Some charSubstitutions \<and>
      this_keyboardProximity det = Some keyboardProximity)"

section \<open>Example inputs\<close>

text \<open>
  A page with two buttons: one opens a window, the other writes to the clipboard. It
  has no frame, link, script element or form.
\<close>

definition copy_page :: Document where
  "copy_page =
     \<lparr>body = Some \<lparr>innerText = js ''open copy'',
                    innerHTML = js ''<button onclick=window.open(location.href)>open</button><button onclick=navigator.clipboard.writeText(location.href)>copy</button>'',
                    oncontextmenu = False\<rparr>,
      iframes = [], links = [], scripts = [], forms = []\<rparr>"

text \<open>
  A cache with one entry and some traffic, and a snapshot with two entries, of which
  the second is older than the time to live at time 100.
\<close>

definition example_cache :: "int CacheManager" where
  "example_cache =
     \<lparr>maxEntries = 10, ttlMs = 1000,
      cache = [(js ''old'', \<lparr>data = 1, timestamp = 0\<rparr>)],
      accessOrder = [(js ''old'', 0)],
      stats = \<lparr>hits = 3, misses = 1, evictions = 0, sets = 1\<rparr>\<rparr>"

definition example_snapshot :: "int snapshot" where
  "example_snapshot =
     Snapshot (Some [Entry (js ''a'') 5 90, Entry (js ''b'') 6 (- 2000)])
       (Some \<lparr>json_hits = Some 1, json_misses = Some 1, json_evictions = Some 0,
              json_sets = Some 2\<rparr>)
       None"

text \<open>
  A cache of capacity 2 after \<open>set\<close> of a URL at time 1, \<open>set\<close> of the empty string at
  time 2 and \<open>get\<close> of the first URL at time 3.
\<close>

definition lru_scenario :: "int CacheManager" where
  "lru_scenario =
     snd (get basic
            (set_entry basic
               (set_entry basic (new_CacheManager 2 1000) 1 (js ''https://a.example/'') 10)
               2 [] 20)
            3 (js ''https://a.example/''))"

text \<open>A freshly populated cache of assessments: two \<open>set\<close> calls on a new cache.\<close>

definition populated_cache :: "assessment CacheManager" where
  "populated_cache =
     set_entry basic
       (set_entry basic (new_CacheManager 10 1000) 1 (js ''https://a.example/'')
          \<lparr>score = 40, threats = [js ''Possible homograph attack (lookalike characters)''],
           details = None, level = Medium, result_timestamp = 1, error = None\<rparr>)
       2 (js ''https://c.example/'')
       \<lparr>score = 40, threats = [js ''Possible homograph attack (lookalike characters)''],
        details = None, level = Medium, result_timestamp = 2, error = None\<rparr>"

text \<open>The entries of a snapshot with two keys.\<close>

definition two_entries :: "int snapshot_entry list" where
  "two_entries = [Entry (js ''https://a.example/'') 5 90, Entry (js ''https://c.example/'') 6 95]"

text \<open>A page that shows nothing and has five frames with \<open>display: none\<close>.\<close>

definition hidden_frame :: Iframe where
  "hidden_frame =
     \<lparr>style_display = js ''none'', style_visibility = js ''visible'',
      offsetWidth = 0, offsetHeight = 0\<rparr>"

definition five_hidden_frames :: Document where
  "five_hidden_frames =
     \<lparr>body = Some \<lparr>innerText = [],
                    innerHTML = concat (replicate 5 (js ''<iframe style=display:none></iframe>'')),
                    oncontextmenu = False\<rparr>,
      iframes = [hidden_frame, hidden_frame, hidden_frame, hidden_frame, hidden_frame],
      links = [], scripts = [], forms = []\<rparr>"

section \<open>Properties\<close>

subsection \<open>The default configuration\<close>

lemma CONFIG_thresholds:
  "thresholds CONFIG = \<lparr>SAFE = 0, LOW = 20, MEDIUM = 40, HIGH = 60, CRITICAL = 80\<rparr>"
  by (simp add: CONFIG_def)

lemma CONFIG_typosquatting:
  "typosquatting CONFIG =
     \<lparr>MAX_LEVENSHTEIN_DISTANCE = 2, MIN_DOMAIN_LENGTH = 4, KEYBOARD_PROXIMITY_THRESHOLD = 4 / 5\<rparr>"
  by (simp add: CONFIG_def)

lemma CONFIG_performance:
  "performance CONFIG = \<lparr>CACHE_TTL_MS = 1800000, CACHE_MAX_ENTRIES = 1000\<rparr>"
  by (simp add: CONFIG_def)

lemma CONFIG_features: "features CONFIG = \<lparr>ENABLE_CACHING = True\<rparr>"
  by (simp add: CONFIG_def)

lemma CONFIG_weights:
  "HOMOGRAPH_ATTACK (weights CONFIG) = 40"
  "TYPOSQUATTING_WEIGHT (weights CONFIG) = 35"
  "AUTO_SUBMIT_FORM (weights CONFIG) = 20"
  "POPUP_WINDOW (weights CONFIG) = 10"
  "RIGHT_CLICK_DISABLED (weights CONFIG) = 5"
  "CLIPBOARD_ACCESS (weights CONFIG) = 10"
  "HIDDEN_IFRAME (weights CONFIG) = 25"
  by (simp_all add: CONFIG_def)

lemma score_rule: "score (rule b w m a) = score a + (if b then w else 0)"
  by (simp add: rule_def fire_def)

lemma threats_rule: "threats (rule b w m a) = threats a @ (if b then [m] else [])"
  by (simp add: rule_def fire_def)

lemma basic_fields: "new_URL basic = URL_basic" "toLowerCase basic = lower_basic"
  by (simp_all add: basic_def)

lemma score_runPasses:
  "score (runPasses P cfg det now url doc) =
     score (analyzeURL P cfg det url) +
     (case doc of None \<Rightarrow> 0
      | Some d \<Rightarrow> score (analyzeContent P cfg det d) + score (analyzeForms P cfg det d url) +
                   score (analyzeBehavior cfg d))"
  by (simp add: runPasses_def mergeAnalysis_def Let_def split: option.split)

lemma level_runPasses:
  "level (runPasses P cfg det now url doc) =
     getRiskLevel cfg (score (runPasses P cfg det now url doc))"
  by (simp add: runPasses_def Let_def)

lemma getRiskLevel_CONFIG:
  "getRiskLevel CONFIG s =
     (if s \<ge> 80 then Critical else if s \<ge> 60 then High else if s \<ge> 40 then Medium
      else if s \<ge> 20 then Low else Safe)"
  by (simp add: getRiskLevel_def CONFIG_thresholds)

lemma findMisleadingLinks_no_links: "links doc = [] \<Longrightarrow> findMisleadingLinks P det doc = Inr 0"
  by (simp add: findMisleadingLinks_def split: option.split)

lemma score_five_hidden_frames:
  "score (analyzeContent basic CONFIG det five_hidden_frames) = 125"
proof -
  have l: "lower_basic [] = []"
    by (simp add: lower_basic_def)
  have u: "findUrgencyPhrases basic CONFIG [] = []"
    apply (simp add: findUrgencyPhrases_def CONFIG_def basic_fields)
    apply code_simp
    done
  have h: "findHiddenIframes five_hidden_frames = 5"
    by (simp add: findHiddenIframes_def five_hidden_frames_def hidden_frame_def)
  have m: "findMisleadingLinks basic det five_hidden_frames = Inr 0"
    by (rule findMisleadingLinks_no_links) (simp add: five_hidden_frames_def)
  have b: "body five_hidden_frames =
      Some \<lparr>innerText = [],
            innerHTML = concat (replicate 5 (js ''<iframe style=display:none></iframe>'')),
            oncontextmenu = False\<rparr>"
    "scripts five_hidden_frames = []"
    by (simp_all add: five_hidden_frames_def)
  show ?thesis
    using u h
    by (simp add: analyzeContent_def Let_def score_rule m b l basic_fields
        findObfuscatedScripts_def CONFIG_weights)
qed

text \<open>
  Claim C7. Under the default configuration the level of a score is critical from 80,
  high from 60, medium from 40, low from 20 and safe below; 20, 40, 60 and 80 are low,
  medium, high and critical, and 19, 39, 59 and 79 are safe, low, medium and high.
  The score is never clamped: merging adds the score of a pass, the score of an
  assessment is the sum of the scores of its passes, and its level is the level of
  that sum. The content pass alone gives 125 on a document with five hidden frames,
  and 125 is critical.
\<close>

theorem getRiskLevel_classification:
  "getRiskLevel CONFIG s =
     (if s \<ge> 80 then Critical else if s \<ge> 60 then High else if s \<ge> 40 then Medium
      else if s \<ge> 20 then Low else Safe) \<and>
   getRiskLevel CONFIG 20 = Low \<and> getRiskLevel CONFIG 40 = Medium \<and>
   getRiskLevel CONFIG 60 = High \<and> getRiskLevel CONFIG 80 = Critical \<and>
   getRiskLevel CONFIG 19 = Safe \<and> getRiskLevel CONFIG 39 = Low \<and>
   getRiskLevel CONFIG 59 = Medium \<and> getRiskLevel CONFIG 79 = High \<and>
   score (mergeAnalysis r a) = score r + score a \<and>
   score (runPasses P CONFIG det now url doc) =
     score (analyzeURL P CONFIG det url) +
     (case doc of None \<Rightarrow> 0
      | Some d \<Rightarrow> score (analyzeContent P CONFIG det d) + score (analyzeForms P CONFIG det d url) +
                   score (analyzeBehavior CONFIG d)) \<and>
   level (runPasses P CONFIG det now url doc) =
     getRiskLevel CONFIG (score (runPasses P CONFIG det now url doc)) \<and>
   score (analyzeContent basic CONFIG det five_hidden_frames) = 125 \<and>
   getRiskLevel CONFIG 125 = Critical"
proof -
  have merge: "score (mergeAnalysis r a) = score r + score a"
    by (simp add: mergeAnalysis_def)
  show ?thesis
    using merge score_runPasses [of P CONFIG det now url doc]
      level_runPasses [of P CONFIG det now url doc] score_five_hidden_frames [of det]
    by (simp only: getRiskLevel_CONFIG) simp
qed

subsection \<open>The state of the detector\<close>

text \<open>The passes read the tables of the detector, not its cache.\<close>

lemma tables_cache_update:
  "this_legitimateDomains (det\<lparr>this_cache := x\<rparr>) = this_legitimateDomains det"
  "this_homographs (det\<lparr>this_cache := x\<rparr>) = this_homographs det"
  "this_charSubstitutions (det\<lparr>this_cache := x\<rparr>) = this_charSubstitutions det"
  "this_keyboardProximity (det\<lparr>this_cache := x\<rparr>) = this_keyboardProximity det"
  by simp_all

lemma typosquats_cache_update:
  "typosquats cfg (det\<lparr>this_cache := x\<rparr>) currentBase legitimate =
     typosquats cfg det currentBase legitimate"
  unfolding typosquats_def checkCharSubstitution_def detectKeyboardProximityAttack_def
    tables_cache_update
  by (rule refl)

lemma typosquatting_loop_cache_update:
  "typosquatting_loop cfg (det\<lparr>this_cache := x\<rparr>) currentBase domains =
     typosquatting_loop cfg det currentBase domains"
  by (induction domains) (simp_all only: typosquatting_loop.simps typosquats_cache_update)

lemma analyzeURL_cache_update:
  "analyzeURL P cfg (det\<lparr>this_cache := x\<rparr>) url = analyzeURL P cfg det url"
  unfolding analyzeURL_def analyzeURL_rules_def detectHomographAttack_def
    detectTyposquatting_def tables_cache_update typosquatting_loop_cache_update
  by (rule refl)

lemma analyzeContent_cache_update:
  "analyzeContent P cfg (det\<lparr>this_cache := x\<rparr>) doc = analyzeContent P cfg det doc"
  unfolding analyzeContent_def findMisleadingLinks_def tables_cache_update
  by (rule refl)

lemma analyzeForm_cache_update:
  "analyzeForm P cfg (det\<lparr>this_cache := x\<rparr>) form urlObj = analyzeForm P cfg det form urlObj"
  unfolding analyzeForm_def tables_cache_update
  by (rule refl)

lemma forms_loop_cache_update:
  "forms_loop P cfg (det\<lparr>this_cache := x\<rparr>) urlObj a fs = forms_loop P cfg det urlObj a fs"
  by (induction fs arbitrary: a) (simp_all only: forms_loop.simps analyzeForm_cache_update)

lemma runPasses_cache_update:
  "runPasses P cfg (det\<lparr>this_cache := x\<rparr>) now url doc = runPasses P cfg det now url doc"
  unfolding runPasses_def analyzeURL_cache_update analyzeContent_cache_update
    analyzeForms_def forms_loop_cache_update
  by (rule refl)

lemma ensureDataLoaded_cache_update:
  "ensureDataLoaded (det\<lparr>this_cache := x\<rparr>) = (ensureDataLoaded det)\<lparr>this_cache := x\<rparr>"
  by (simp add: ensureDataLoaded_def)

lemma new_PhishingDetector_CONFIG:
  "new_PhishingDetector CONFIG =
     \<lparr>this_cache = Some (new_CacheManager 1000 1800000), dataLoaded = False,
      this_legitimateDomains = None, this_homographs = None,
      this_charSubstitutions = None, this_keyboardProximity = None\<rparr>"
  by (simp add: new_PhishingDetector_def CONFIG_features CONFIG_performance)

lemma ensureDataLoaded_new:
  "ensureDataLoaded (new_PhishingDetector CONFIG) =
     \<lparr>this_cache = Some (new_CacheManager 1000 1800000), dataLoaded = True,
      this_legitimateDomains = Some legitimateDomains, this_homographs = Some homographs,
      this_charSubstitutions = Some charSubstitutions,
      this_keyboardProximity = Some keyboardProximity\<rparr>"
  by (simp add: new_PhishingDetector_CONFIG ensureDataLoaded_def)

lemma tablesLoaded_new: "tablesLoaded (ensureDataLoaded (new_PhishingDetector CONFIG))"
  by (simp add: ensureDataLoaded_new tablesLoaded_def)

subsection \<open>The URL pass\<close>

lemma includes_str_single: "includes_str s [c] = (c \<in> set s)"
  by (induction s) auto

lemma js_l01: "(c \<in> set (js ''l01'')) = (c = 108 \<or> c = 48 \<or> c = 49)"
  by (auto simp add: js_def)

lemma score_fire: "score (fire w m a) = score a + w"
  by (simp add: fire_def)

lemma threats_fire: "threats (fire w m a) = threats a @ [m]"
  by (simp add: fire_def)

lemma details_rule: "details (rule b w m a) = details a"
  by (simp add: rule_def fire_def)

text \<open>The URL pass when neither the homograph rule nor the typosquatting rule throws.\<close>

lemma score_analyzeURL_rules:
  assumes "detectHomographAttack det (toLowerCase P (hostname u)) = Inr homograph"
    and "detectTyposquatting cfg det (toLowerCase P (hostname u)) = Inr found"
  shows "score (analyzeURL_rules P cfg det url u) =
     (if protocol u \<noteq> js ''https:'' \<and> isSensitivePath (toLowerCase P (pathname u))
      then NON_HTTPS_SENSITIVE (weights cfg) else 0) +
     (if IP_ADDRESS_PATTERN_test url then IP_ADDRESS_DOMAIN (weights cfg) else 0) +
     (if hasSuspiciousTLD cfg (toLowerCase P (hostname u))
      then SUSPICIOUS_TLD (weights cfg) else 0) +
     (if getSubdomainCount (toLowerCase P (hostname u)) > 3
      then EXCESSIVE_SUBDOMAINS (weights cfg) else 0) +
     (if findSuspiciousKeywords cfg (toLowerCase P url) \<noteq> []
      then int (length (findSuspiciousKeywords cfg (toLowerCase P url))) *
           SUSPICIOUS_KEYWORD (weights cfg) else 0) +
     (if homograph then HOMOGRAPH_ATTACK (weights cfg) else 0) +
     (if found \<noteq> None then TYPOSQUATTING_WEIGHT (weights cfg) else 0) +
     (if includes_str (toLowerCase P url) (js ''@'') then URL_AT_SYMBOL (weights cfg) else 0) +
     (if isURLShortener cfg (toLowerCase P (hostname u))
      then URL_SHORTENER (weights cfg) else 0) +
     (if hasEmbeddedURL (toLowerCase P (pathname u)) then EMBEDDED_URL (weights cfg) else 0)"
  using assms
  by (cases found) (simp_all add: analyzeURL_rules_def Let_def score_rule score_fire)

lemma threats_analyzeURL_rules:
  assumes "detectHomographAttack det (toLowerCase P (hostname u)) = Inr homograph"
    and "detectTyposquatting cfg det (toLowerCase P (hostname u)) = Inr found"
  shows "threats (analyzeURL_rules P cfg det url u) =
     (if protocol u \<noteq> js ''https:'' \<and> isSensitivePath (toLowerCase P (pathname u))
      then [js ''Non-HTTPS connection on sensitive page''] else []) @
     (if IP_ADDRESS_PATTERN_test url then [js ''Using IP address instead of domain name''] else []) @
     (if hasSuspiciousTLD cfg (toLowerCase P (hostname u))
      then [js ''Suspicious top-level domain''] else []) @
     (if getSubdomainCount (toLowerCase P (hostname u)) > 3
      then [js ''Excessive subdomains detected''] else []) @
     (if findSuspiciousKeywords cfg (toLowerCase P url) \<noteq> []
      then [js ''Suspicious keywords: '' @
            join (js '', '') (take 3 (findSuspiciousKeywords cfg (toLowerCase P url)))] else []) @
     (if homograph then [js ''Possible homograph attack (lookalike characters)''] else []) @
     (case found of
        Some typoTarget \<Rightarrow> [js ''Possible typosquatting: similar to '' @ typoTarget]
      | None \<Rightarrow> []) @
     (if includes_str (toLowerCase P url) (js ''@'')
      then [js ''URL contains @ symbol (possible redirect)''] else []) @
     (if isURLShortener cfg (toLowerCase P (hostname u))
      then [js ''URL shortener detected''] else []) @
     (if hasEmbeddedURL (toLowerCase P (pathname u))
      then [js ''Embedded URL in path (redirect chain)''] else [])"
  using assms
  by (cases found) (simp_all add: analyzeURL_rules_def Let_def threats_rule threats_fire)

lemma details_analyzeURL_rules:
  assumes "detectHomographAttack det (toLowerCase P (hostname u)) = Inr homograph"
    and "detectTyposquatting cfg det (toLowerCase P (hostname u)) = Inr found"
  shows "details (analyzeURL_rules P cfg det url u) =
     Some \<lparr>details_protocol = protocol u, details_domain = toLowerCase P (hostname u),
           isHTTPS = (protocol u = js ''https:''),
           subdomainCount = getSubdomainCount (toLowerCase P (hostname u))\<rparr>"
  using assms by (simp add: analyzeURL_rules_def Let_def)

text \<open>The URL pass when the homograph rule throws: the five rules before it.\<close>

lemma analyzeURL_rules_homograph_throws:
  assumes "detectHomographAttack det (toLowerCase P (hostname u)) = Inl e"
  shows "score (analyzeURL_rules P cfg det url u) =
     (if protocol u \<noteq> js ''https:'' \<and> isSensitivePath (toLowerCase P (pathname u))
      then NON_HTTPS_SENSITIVE (weights cfg) else 0) +
     (if IP_ADDRESS_PATTERN_test url then IP_ADDRESS_DOMAIN (weights cfg) else 0) +
     (if hasSuspiciousTLD cfg (toLowerCase P (hostname u))
      then SUSPICIOUS_TLD (weights cfg) else 0) +
     (if getSubdomainCount (toLowerCase P (hostname u)) > 3
      then EXCESSIVE_SUBDOMAINS (weights cfg) else 0) +
     (if findSuspiciousKeywords cfg (toLowerCase P url) \<noteq> []
      then int (length (findSuspiciousKeywords cfg (toLowerCase P url))) *
           SUSPICIOUS_KEYWORD (weights cfg) else 0)"
    and "threats (analyzeURL_rules P cfg det url u) =
     (if protocol u \<noteq> js ''https:'' \<and> isSensitivePath (toLowerCase P (pathname u))
      then [js ''Non-HTTPS connection on sensitive page''] else []) @
     (if IP_ADDRESS_PATTERN_test url then [js ''Using IP address instead of domain name''] else []) @
     (if hasSuspiciousTLD cfg (toLowerCase P (hostname u))
      then [js ''Suspicious top-level domain''] else []) @
     (if getSubdomainCount (toLowerCase P (hostname u)) > 3
      then [js ''Excessive subdomains detected''] else []) @
     (if findSuspiciousKeywords cfg (toLowerCase P url) \<noteq> []
      then [js ''Suspicious keywords: '' @
            join (js '', '') (take 3 (findSuspiciousKeywords cfg (toLowerCase P url)))] else [])"
    and "details (analyzeURL_rules P cfg det url u) = None"
  using assms
  by (simp_all add: analyzeURL_rules_def Let_def score_rule threats_rule details_rule)

text \<open>
  With the tables loaded, a host that contains the ASCII letter \<open>l\<close> or the ASCII digit
  \<open>0\<close> or \<open>1\<close> is reported by the homograph detector, whatever else it contains, and the
  URL pass pushes the homograph threat for a URL with such a host.
\<close>

lemma detectHomographAttack_loaded:
  assumes "tablesLoaded det" and "c \<in> set (js ''l01'')" and "c \<in> set domain"
  shows "detectHomographAttack det domain = Inr True"
proof -
  have "includes_str domain (js ''0'') \<or> includes_str domain (js ''1'') \<or>
        includes_str domain (js ''l'')"
    using assms(2,3) by (auto simp add: js_def includes_str_single)
  then have "list_ex (\<lambda>(latin, alts). list_ex (\<lambda>alt. includes_str domain alt) alts) homographs"
    by (auto simp add: homographs_def)
  then show ?thesis
    using assms(1) by (simp add: detectHomographAttack_def tablesLoaded_def)
qed

lemma homograph_threat_loaded:
  assumes "tablesLoaded det" and "c \<in> set (js ''l01'')"
    and "new_URL P url = Some u" and "c \<in> set (toLowerCase P (hostname u))"
  shows "js ''Possible homograph attack (lookalike characters)''
           \<in> set (threats (analyzeURL P cfg det url))"
proof -
  have h: "detectHomographAttack det (toLowerCase P (hostname u)) = Inr True"
    using assms(1,2,4) by (rule detectHomographAttack_loaded)
  show ?thesis
  proof (cases "detectTyposquatting cfg det (toLowerCase P (hostname u))")
    case (Inl e)
    with h show ?thesis
      by (simp add: analyzeURL_def assms(3) analyzeURL_rules_def Let_def threats_rule)
  next
    case (Inr found)
    with h show ?thesis
      by (simp add: analyzeURL_def assms(3) threats_analyzeURL_rules)
  qed
qed

lemma URL_basic_google:
  "URL_basic (js ''https://google.com/'') =
     Some \<lparr>protocol = js ''https:'', hostname = js ''google.com'', pathname = js ''/'',
           toString_no_hash = js ''https://google.com/''\<rparr>"
  by code_simp

lemma CONFIG_SUSPICIOUS_TLDS:
  "SUSPICIOUS_TLDS (patterns CONFIG) = map js
     [''.tk'', ''.ml'', ''.ga'', ''.cf'', ''.gq'', ''.xyz'', ''.top'', ''.work'',
      ''.live'', ''.site'', ''.online'', ''.club'', ''.bid'', ''.loan'']"
  by (simp add: CONFIG_def)

lemma CONFIG_SUSPICIOUS_KEYWORDS:
  "SUSPICIOUS_KEYWORDS (patterns CONFIG) = map js
     [''verify'', ''urgent'', ''suspended'', ''locked'', ''limited'', ''unusual'',
      ''confirm'', ''update'', ''secure'', ''expire'', ''immediately'', ''account-update'',
      ''security-alert'', ''billing-problem'', ''reset-password'', ''click-here'',
      ''prize'', ''winner'', ''congratulations'', ''claim'', ''free-money'']"
  by (simp add: CONFIG_def)

lemma CONFIG_URL_SHORTENERS:
  "URL_SHORTENERS (patterns CONFIG) = map js
     [''bit.ly'', ''tinyurl.com'', ''goo.gl'', ''t.co'', ''ow.ly'', ''is.gd'',
      ''buff.ly'', ''adf.ly'', ''bit.do'', ''mcaf.ee'']"
  by (simp add: CONFIG_def)

lemma CONFIG_URL_weights:
  "NON_HTTPS_SENSITIVE (weights CONFIG) = 25" "IP_ADDRESS_DOMAIN (weights CONFIG) = 30"
  "SUSPICIOUS_TLD (weights CONFIG) = 15" "EXCESSIVE_SUBDOMAINS (weights CONFIG) = 10"
  "URL_AT_SYMBOL (weights CONFIG) = 20" "URL_SHORTENER (weights CONFIG) = 10"
  "EMBEDDED_URL (weights CONFIG) = 15" "SUSPICIOUS_KEYWORD (weights CONFIG) = 5"
  by (simp_all add: CONFIG_def)

text \<open>
  Claim C9 fails on the code for a detector whose tables are not loaded. The warning
  page creates a detector and calls \<open>_analyzeURL\<close> on it at once, without
  \<open>_ensureDataLoaded\<close>. For \<open>https://google.com/\<close> the homograph detector then throws
  \<open>TypeError\<close> on the table that is still \<open>null\<close>, the \<open>catch\<close> block of \<open>_analyzeURL\<close>
  swallows the error, and the URL pass returns score 0 and no threat. On the same
  detector after \<open>_ensureDataLoaded\<close>, which \<open>analyze\<close> calls before the URL pass, the
  homograph detector returns true for \<open>google.com\<close> and for \<open>paypal.com\<close> and the URL
  pass pushes the homograph threat.
\<close>

theorem analyzeURL_before_data_loaded:
  "detectHomographAttack (new_PhishingDetector CONFIG) (js ''google.com'') = Inl TypeError \<and>
   analyzeURL basic CONFIG (new_PhishingDetector CONFIG) (js ''https://google.com/'') =
     \<lparr>score = 0, threats = [], details = None\<rparr> \<and>
   detectHomographAttack (ensureDataLoaded (new_PhishingDetector CONFIG)) (js ''google.com'') =
     Inr True \<and>
   detectHomographAttack (ensureDataLoaded (new_PhishingDetector CONFIG)) (js ''paypal.com'') =
     Inr True \<and>
   js ''Possible homograph attack (lookalike characters)''
     \<in> set (threats (analyzeURL basic CONFIG (ensureDataLoaded (new_PhishingDetector CONFIG))
                       (js ''https://google.com/'')))"
proof -
  let ?url = "js ''https://google.com/''"
  let ?u = "\<lparr>protocol = js ''https:'', hostname = js ''google.com'', pathname = js ''/'',
             toString_no_hash = js ''https://google.com/''\<rparr>"
  let ?fresh = "new_PhishingDetector CONFIG"
  have u: "new_URL basic ?url = Some ?u"
    unfolding basic_fields by (rule URL_basic_google)
  have d: "lower_basic (js ''google.com'') = js ''google.com''" by code_simp
  have p: "lower_basic (js ''/'') = js ''/''" by code_simp
  have f: "lower_basic ?url = ?url" by code_simp
  have r2: "IP_ADDRESS_PATTERN_test ?url = False" by code_simp
  have r3: "hasSuspiciousTLD CONFIG (js ''google.com'') = False"
    unfolding hasSuspiciousTLD_def CONFIG_SUSPICIOUS_TLDS by code_simp
  have r4: "getSubdomainCount (js ''google.com'') = 0" by code_simp
  have r5: "findSuspiciousKeywords CONFIG ?url = []"
    unfolding findSuspiciousKeywords_def CONFIG_SUSPICIOUS_KEYWORDS by code_simp
  have puny: "PUNYCODE_PATTERN_test (js ''google.com'') = False" by code_simp
  have throws: "detectHomographAttack ?fresh (js ''google.com'') = Inl TypeError"
    by (simp add: detectHomographAttack_def puny new_PhishingDetector_CONFIG)
  then have throws': "detectHomographAttack ?fresh (toLowerCase basic (hostname ?u)) = Inl TypeError"
    by (simp add: basic_fields d)
  have fresh: "analyzeURL basic CONFIG ?fresh ?url = \<lparr>score = 0, threats = [], details = None\<rparr>"
    using analyzeURL_rules_homograph_throws [OF throws', of CONFIG ?url]
    by (simp add: analyzeURL_def u d p f r2 r3 r4 r5 analysis.equality basic_fields(2))
  have l: "(108::int) \<in> set (js ''l01'')" by (simp add: js_def)
  have g: "(108::int) \<in> set (js ''google.com'')" by (simp add: js_def)
  have pp: "(108::int) \<in> set (js ''paypal.com'')" by (simp add: js_def)
  have g': "(108::int) \<in> set (toLowerCase basic (hostname ?u))"
    using g by (simp add: basic_fields d)
  note loaded = tablesLoaded_new
  from throws fresh
    detectHomographAttack_loaded [OF loaded l g]
    detectHomographAttack_loaded [OF loaded l pp]
    homograph_threat_loaded [OF loaded l u g', of CONFIG]
  show ?thesis by simp
qed

subsection \<open>Malformed URLs\<close>

lemma analyzeURL_malformed:
  "new_URL P url = None \<Longrightarrow>
   analyzeURL P cfg det url = \<lparr>score = 0, threats = [], details = None\<rparr>"
  by (simp add: analyzeURL_def)

lemma analyzeForms_malformed:
  "new_URL P url = None \<Longrightarrow>
   analyzeForms P cfg det d url = \<lparr>score = 0, threats = [], details = None\<rparr>"
  by (simp add: analyzeForms_def)

lemma threats_runPasses:
  "threats (runPasses P cfg det now url doc) =
     threats (analyzeURL P cfg det url) @
     (case doc of None \<Rightarrow> []
      | Some d \<Rightarrow> threats (analyzeContent P cfg det d) @ threats (analyzeForms P cfg det d url) @
                   threats (analyzeBehavior cfg d))"
  by (simp add: runPasses_def mergeAnalysis_def Let_def split: option.split)

lemma analyze_miss:
  assumes "url \<noteq> []"
    and "case this_cache det of None \<Rightarrow> True | Some c \<Rightarrow> \<not> fst (has P c now url)"
  shows "fst (analyze P cfg det now url doc) =
           Some (runPasses P cfg (ensureDataLoaded det) now url doc)"
  using assms
  by (cases "this_cache det")
     (auto simp add: analyze_def Let_def ensureDataLoaded_cache_update runPasses_cache_update
        split: prod.split bool.split)

lemma analyze_empty_url:
  "fst (analyze P cfg det now [] doc) = Some (createSafeResult now)"
  by (simp add: analyze_def)

text \<open>
  Claim C3, as amended. Take a URL string that \<open>new URL\<close> rejects and a detector that
  holds no live cache entry for it. Without a document, \<open>analyze\<close> returns score 0,
  level safe and no threats. With a document, the URL pass and the form pass contribute
  nothing, and the score and the threats are those of the content pass followed by
  the behaviour pass (nothing at all for the empty string, which is rejected as invalid
  input); the level is the level of that score.
\<close>

theorem malformed_url_analysis:
  assumes "new_URL P url = None"
    and "case this_cache det of None \<Rightarrow> True | Some c \<Rightarrow> \<not> fst (has P c now url)"
  shows "(\<exists>r. fst (analyze P CONFIG det now url None) = Some r \<and>
              score r = 0 \<and> level r = Safe \<and> threats r = []) \<and>
         (\<exists>r. fst (analyze P CONFIG det now url (Some d)) = Some r \<and>
              score r = (if url = [] then 0
                         else score (analyzeContent P CONFIG (ensureDataLoaded det) d) +
                              score (analyzeBehavior CONFIG d)) \<and>
              threats r = (if url = [] then []
                           else threats (analyzeContent P CONFIG (ensureDataLoaded det) d) @
                                threats (analyzeBehavior CONFIG d)) \<and>
              level r = getRiskLevel CONFIG (score r))"
proof (cases "url = []")
  case True
  then show ?thesis
    by (simp add: analyze_empty_url createSafeResult_def getRiskLevel_CONFIG)
next
  case False
  let ?det = "ensureDataLoaded det"
  have nodoc: "fst (analyze P CONFIG det now url None) = Some (runPasses P CONFIG ?det now url None)"
    using False assms(2) by (rule analyze_miss)
  have withdoc: "fst (analyze P CONFIG det now url (Some d)) =
      Some (runPasses P CONFIG ?det now url (Some d))"
    using False assms(2) by (rule analyze_miss)
  have s0: "score (runPasses P CONFIG ?det now url None) = 0"
    using assms(1) by (simp add: score_runPasses analyzeURL_malformed)
  have t0: "threats (runPasses P CONFIG ?det now url None) = []"
    using assms(1) by (simp add: threats_runPasses analyzeURL_malformed)
  have l0: "level (runPasses P CONFIG ?det now url None) = Safe"
    using s0 by (simp add: level_runPasses getRiskLevel_CONFIG)
  have s1: "score (runPasses P CONFIG ?det now url (Some d)) =
      score (analyzeContent P CONFIG ?det d) + score (analyzeBehavior CONFIG d)"
    using assms(1) by (simp add: score_runPasses analyzeURL_malformed analyzeForms_malformed)
  have t1: "threats (runPasses P CONFIG ?det now url (Some d)) =
      threats (analyzeContent P CONFIG ?det d) @ threats (analyzeBehavior CONFIG d)"
    using assms(1) by (simp add: threats_runPasses analyzeURL_malformed analyzeForms_malformed)
  show ?thesis
    using False nodoc withdoc s0 t0 l0 s1 t1 by (simp add: level_runPasses)
qed

lemma URL_basic_not_a_url: "new_URL basic (js ''not a url'') = None"
  unfolding basic_fields by code_simp

lemma has_new_CacheManager: "fst (has P (new_CacheManager m t) now url) = False"
  by (simp add: has_def new_CacheManager_def)

lemma fresh_detector_miss:
  "case this_cache (new_PhishingDetector CONFIG) of
     None \<Rightarrow> True | Some c \<Rightarrow> \<not> fst (has P c now url)"
  by (simp add: new_PhishingDetector_CONFIG has_new_CacheManager)

lemma analyzeContent_copy_page:
  "analyzeContent basic CONFIG det copy_page = \<lparr>score = 0, threats = [], details = None\<rparr>"
proof -
  have l: "lower_basic (js ''open copy'') = js ''open copy''" by code_simp
  have u: "findUrgencyPhrases basic CONFIG (js ''open copy'') = []"
    apply (simp add: findUrgencyPhrases_def CONFIG_def basic_fields)
    apply code_simp
    done
  have e: "length (filter (\<lambda>c. c = 33) (js ''open copy'')) = 0"
    by code_simp
  have m: "findMisleadingLinks basic det copy_page = Inr 0"
    by (rule findMisleadingLinks_no_links) (simp add: copy_page_def)
  have b: "body copy_page =
      Some \<lparr>innerText = js ''open copy'',
            innerHTML = js ''<button onclick=window.open(location.href)>open</button><button onclick=navigator.clipboard.writeText(location.href)>copy</button>'',
            oncontextmenu = False\<rparr>"
    "iframes copy_page = []" "scripts copy_page = []"
    by (simp_all add: copy_page_def)
  show ?thesis
    using u e
    by (simp add: analyzeContent_def Let_def rule_def findHiddenIframes_def m b l basic_fields
        findObfuscatedScripts_def)
qed

lemma analyzeBehavior_copy_page:
  "analyzeBehavior CONFIG copy_page =
     \<lparr>score = 20, threats = [js ''Popup window code detected'', js ''Clipboard access detected''],
      details = None\<rparr>"
proof -
  let ?html = "js ''<button onclick=window.open(location.href)>open</button><button onclick=navigator.clipboard.writeText(location.href)>copy</button>''"
  have a: "includes_str ?html (js ''submit()'') = False" by code_simp
  have b: "includes_str ?html (js ''window.open('') = True" by code_simp
  have c: "includes_str ?html (js ''clipboard'') = True" by code_simp
  show ?thesis
    using a b c
    by (simp add: analyzeBehavior_def copy_page_def Let_def rule_def fire_def CONFIG_weights)
qed

text \<open>
  Claim C3 as stated fails when a document comes with the malformed URL: for the
  string \<open>not a url\<close> and the example page, a new detector returns score 20,
  level low and two threats.
\<close>

theorem malformed_url_with_document_counterexample:
  "new_URL basic (js ''not a url'') = None \<and>
   fst (analyze basic CONFIG (new_PhishingDetector CONFIG) 0 (js ''not a url'')
          (Some copy_page)) =
     Some \<lparr>score = 20,
           threats = [js ''Popup window code detected'', js ''Clipboard access detected''],
           details = None, level = Low, result_timestamp = 0, error = None\<rparr>"
proof -
  let ?det = "ensureDataLoaded (new_PhishingDetector CONFIG)"
  have ne: "js ''not a url'' \<noteq> []" by (simp add: js_def)
  have "fst (analyze basic CONFIG (new_PhishingDetector CONFIG) 0 (js ''not a url'')
          (Some copy_page)) =
      Some (runPasses basic CONFIG ?det 0 (js ''not a url'') (Some copy_page))"
    using ne fresh_detector_miss by (rule analyze_miss)
  moreover have "runPasses basic CONFIG ?det 0 (js ''not a url'') (Some copy_page) =
     \<lparr>score = 20,
           threats = [js ''Popup window code detected'', js ''Clipboard access detected''],
           details = None, level = Low, result_timestamp = 0, error = None\<rparr>"
    by (simp add: runPasses_def Let_def mergeAnalysis_def analyzeURL_malformed
        analyzeForms_malformed URL_basic_not_a_url analyzeContent_copy_page
        analyzeBehavior_copy_page getRiskLevel_CONFIG)
  ultimately show ?thesis
    by (simp add: URL_basic_not_a_url)
qed

theorem malformed_url_analysis_witness:
  "(\<exists>r. fst (analyze basic CONFIG (new_PhishingDetector CONFIG) 0 (js ''not a url'') None)
          = Some r \<and> score r = 0 \<and> level r = Safe \<and> threats r = []) \<and>
   (\<exists>r. fst (analyze basic CONFIG (new_PhishingDetector CONFIG) 0 (js ''not a url'')
            (Some copy_page)) = Some r \<and>
        score r = 20 \<and>
        threats r = [js ''Popup window code detected'', js ''Clipboard access detected''] \<and>
        level r = Low)"
proof -
  have ne: "js ''not a url'' \<noteq> []" by (simp add: js_def)
  show ?thesis
    using malformed_url_analysis [where P = basic and url = "js ''not a url''"
        and det = "new_PhishingDetector CONFIG" and now = 0 and d = copy_page]
      URL_basic_not_a_url
      fresh_detector_miss [where P = basic and now = 0 and url = "js ''not a url''"] ne
    by (auto simp add: analyzeContent_copy_page analyzeBehavior_copy_page getRiskLevel_CONFIG)
qed

subsection \<open>Import of a snapshot\<close>

lemma length_update:
  "length (AList.update k v al) = (if k \<in> fst ` set al then length al else Suc (length al))"
  by (induction al) auto

lemma length_delete:
  "distinct (map fst al) \<Longrightarrow> k \<in> fst ` set al \<Longrightarrow> Suc (length (AList.delete k al)) = length al"
proof (induction al)
  case Nil
  then show ?case by simp
next
  case (Cons p ps)
  show ?case
  proof (cases "fst p = k")
    case True
    with Cons.prems have "k \<notin> fst ` set ps" by auto
    with True show ?thesis by simp
  next
    case False
    with Cons show ?thesis by auto
  qed
qed

lemma map_add_update_step:
  "map_of (AList.update k v al) ++ map_of (rev xs) = map_of al ++ map_of (rev ((k, v) # xs))"
  by (simp add: AList.update_conv')

lemma import_entries_ok:
  assumes "NullEntry \<notin> set es"
  shows "fst (import_entries c now es) = True \<and>
         map_of (cache (snd (import_entries c now es))) =
           map_of (cache c) ++ map_of (rev (live_entries (ttlMs c) now es)) \<and>
         map_of (accessOrder (snd (import_entries c now es))) =
           map_of (accessOrder c) ++
           map_of (rev (map (\<lambda>(k, e). (k, timestamp e)) (live_entries (ttlMs c) now es))) \<and>
         fst ` set (cache (snd (import_entries c now es))) =
           fst ` set (cache c) \<union> fst ` set (live_entries (ttlMs c) now es) \<and>
         fst ` set (accessOrder (snd (import_entries c now es))) =
           fst ` set (accessOrder c) \<union> fst ` set (live_entries (ttlMs c) now es) \<and>
         (distinct (map fst (cache c)) \<longrightarrow>
            distinct (map fst (cache (snd (import_entries c now es))))) \<and>
         (distinct (map fst (accessOrder c)) \<longrightarrow>
            distinct (map fst (accessOrder (snd (import_entries c now es))))) \<and>
         stats (snd (import_entries c now es)) = stats c \<and>
         maxEntries (snd (import_entries c now es)) = maxEntries c \<and>
         ttlMs (snd (import_entries c now es)) = ttlMs c"
  using assms
proof (induction es arbitrary: c)
  case Nil
  then show ?case by simp
next
  case (Cons e es)
  show ?case
  proof (cases e)
    case NullEntry
    with Cons.prems show ?thesis by simp
  next
    case (Entry key d t)
    from Cons.prems have rest: "NullEntry \<notin> set es" by simp
    show ?thesis
    proof (cases "now - t \<le> ttlMs c")
      case True
      let ?c1 = "c\<lparr>cache := AList.update key \<lparr>data = d, timestamp = t\<rparr> (cache c),
                    accessOrder := AList.update key t (accessOrder c)\<rparr>"
      have step: "import_entries c now (e # es) = import_entries ?c1 now es"
        using Entry True by simp
      have live: "live_entries (ttlMs c) now (e # es) =
          (key, \<lparr>data = d, timestamp = t\<rparr>) # live_entries (ttlMs c) now es"
        using Entry True by simp
      have ttl1: "ttlMs ?c1 = ttlMs c" by simp
      note IH = Cons.IH [OF rest, of ?c1, unfolded ttl1]
      have m1: "map_of (AList.update key \<lparr>data = d, timestamp = t\<rparr> (cache c)) ++
            map_of (rev (live_entries (ttlMs c) now es)) =
          map_of (cache c) ++
            map_of (rev ((key, \<lparr>data = d, timestamp = t\<rparr>) # live_entries (ttlMs c) now es))"
        by (rule map_add_update_step)
      have m2: "map_of (AList.update key t (accessOrder c)) ++
            map_of (rev (map (\<lambda>(k, e). (k, timestamp e)) (live_entries (ttlMs c) now es))) =
          map_of (accessOrder c) ++
            map_of (rev (map (\<lambda>(k, e). (k, timestamp e))
              ((key, \<lparr>data = d, timestamp = t\<rparr>) # live_entries (ttlMs c) now es)))"
        using map_add_update_step [of key t "accessOrder c"
            "map (\<lambda>(k, e). (k, timestamp e)) (live_entries (ttlMs c) now es)"]
        by simp
      show ?thesis
        unfolding step live using IH m1 m2
        by (simp add: AList.dom_update AList.distinct_update Un_assoc del: map_of_append rev.simps)
    next
      case False
      have step: "import_entries c now (e # es) = import_entries c now es"
        using Entry False by simp
      have live: "live_entries (ttlMs c) now (e # es) = live_entries (ttlMs c) now es"
        using Entry False by simp
      show ?thesis
        unfolding step live using Cons.IH [OF rest, of c] by simp
    qed
  qed
qed

lemma clear_fields:
  "cache (clear c) = []" "accessOrder (clear c) = []" "stats (clear c) = zero_stats"
  "maxEntries (clear c) = maxEntries c" "ttlMs (clear c) = ttlMs c"
  by (simp_all add: clear_def zero_stats_def)

lemma import_well_formed:
  assumes "NullEntry \<notin> set es"
  shows "\<exists>c'. import c now (Some (Snapshot (Some es) st md)) = (True, c') \<and>
           map_of (cache c') = map_of (rev (live_entries (ttlMs c) now es)) \<and>
           map_of (accessOrder c') =
             map_of (rev (map (\<lambda>(k, e). (k, timestamp e)) (live_entries (ttlMs c) now es))) \<and>
           fst ` set (cache c') = fst ` set (live_entries (ttlMs c) now es) \<and>
           distinct (map fst (cache c')) \<and>
           stats c' = (case st of None \<Rightarrow> zero_stats | Some j \<Rightarrow> spread_stats zero_stats j) \<and>
           maxEntries c' = maxEntries c \<and> ttlMs c' = ttlMs c"
proof -
  obtain b c1 where run: "import_entries (clear c) now es = (b, c1)"
    by (cases "import_entries (clear c) now es") auto
  note ok = import_entries_ok [OF assms, of "clear c" now, unfolded clear_fields run fst_conv
      snd_conv]
  from ok have b: "b = True" by simp
  show ?thesis
  proof (cases st)
    case None
    then have "import c now (Some (Snapshot (Some es) st md)) = (True, c1)"
      by (simp add: import_def run b)
    then show ?thesis using ok None by simp
  next
    case (Some j)
    then have "import c now (Some (Snapshot (Some es) st md)) =
        (True, c1\<lparr>stats := spread_stats (stats c1) j\<rparr>)"
      by (simp add: import_def run b)
    then show ?thesis using ok Some by simp
  qed
qed

text \<open>
  Claim C4, as amended. For a snapshot whose entries are all objects, \<open>import\<close> returns
  true and replaces the contents of the cache by the snapshot's non-expired entries:
  a lookup finds the last non-expired entry of the snapshot with that key, with its
  own timestamp as access time, and no other key is present. The counters are not
  added to the counters the cache had: \<open>import\<close> clears the cache first, which resets
  them, and then each counter of the snapshot replaces the zero.
\<close>

theorem import_replaces_contents:
  assumes "NullEntry \<notin> set es"
  shows "\<exists>c'. import c now (Some (Snapshot (Some es) st md)) = (True, c') \<and>
           map_of (cache c') = map_of (rev (live_entries (ttlMs c) now es)) \<and>
           map_of (accessOrder c') =
             map_of (rev (map (\<lambda>(k, e). (k, timestamp e)) (live_entries (ttlMs c) now es))) \<and>
           fst ` set (cache c') = fst ` set (live_entries (ttlMs c) now es) \<and>
           distinct (map fst (cache c')) \<and>
           stats c' = (case st of None \<Rightarrow> zero_stats | Some j \<Rightarrow> spread_stats zero_stats j) \<and>
           maxEntries c' = maxEntries c \<and> ttlMs c' = ttlMs c"
  using assms by (rule import_well_formed)

theorem import_replaces_contents_witness:
  "\<exists>c'. import example_cache 100 (Some example_snapshot) = (True, c') \<and>
     map_of (cache c') = map_of [(js ''a'', \<lparr>data = 5, timestamp = 90\<rparr>)] \<and>
     fst ` set (cache c') = {js ''a''} \<and>
     stats c' = \<lparr>hits = 1, misses = 1, evictions = 0, sets = 2\<rparr>"
proof -
  have wf: "NullEntry \<notin> set [Entry (js ''a'') (5::int) 90, Entry (js ''b'') 6 (- 2000)]"
    by simp
  show ?thesis
    using import_replaces_contents [OF wf, of example_cache 100
        "Some \<lparr>json_hits = Some 1, json_misses = Some 1, json_evictions = Some 0,
               json_sets = Some 2\<rparr>" None]
    by (auto simp add: example_snapshot_def example_cache_def spread_stats_def zero_stats_def)
qed

text \<open>
  Claim C4 as stated fails on the counters: the cache has 3 hits, 1 miss and 1 set,
  the snapshot has 1 hit, 1 miss and 2 sets, and after \<open>import\<close> the cache has the
  counters of the snapshot, not the sums.
\<close>

theorem import_stats_not_additive_counterexample:
  "stats example_cache = \<lparr>hits = 3, misses = 1, evictions = 0, sets = 1\<rparr> \<and>
   import example_cache 100 (Some example_snapshot) =
     (True, \<lparr>maxEntries = 10, ttlMs = 1000,
             cache = [(js ''a'', \<lparr>data = 5, timestamp = 90\<rparr>)],
             accessOrder = [(js ''a'', 90)],
             stats = \<lparr>hits = 1, misses = 1, evictions = 0, sets = 2\<rparr>\<rparr>)"
  by (simp add: example_cache_def example_snapshot_def import_def clear_def spread_stats_def)

lemma import_entries_null:
  "NullEntry \<notin> set es1 \<Longrightarrow>
   import_entries c now (es1 @ NullEntry # es2) = (False, snd (import_entries c now es1))"
proof (induction es1 arbitrary: c)
  case Nil
  then show ?case by simp
next
  case (Cons e es1)
  then show ?case by (cases e) simp_all
qed

lemma split_at_null:
  "NullEntry \<in> set es \<Longrightarrow>
   \<exists>es2. es = takeWhile (\<lambda>e. e \<noteq> NullEntry) es @ NullEntry # es2"
  by (induction es) auto

lemma takeWhile_no_null: "NullEntry \<notin> set (takeWhile (\<lambda>e. e \<noteq> NullEntry) es)"
  by (induction es) auto

text \<open>
  Claim C5, as amended. When \<open>JSON.parse\<close> rejects the string, \<open>import\<close> returns false
  and the cache is exactly as it was. \<open>import\<close> also returns false for a parseable
  snapshot that is the value \<open>null\<close> or has a \<open>null\<close> among its entries, and for no other
  snapshot; in these two cases the cache has been cleared before the failure, and the
  entries in front of the first \<open>null\<close> entry have been imported.
\<close>

theorem import_failure:
  "import c now None = (False, c) \<and>
   import c now (Some NullSnapshot) = (False, clear c) \<and>
   (fst (import c now parsed) = False) =
     (parsed = None \<or> parsed = Some NullSnapshot \<or>
      (\<exists>es st md. parsed = Some (Snapshot (Some es) st md) \<and> NullEntry \<in> set es)) \<and>
   (NullEntry \<in> set es \<longrightarrow>
      (\<exists>c'. import c now (Some (Snapshot (Some es) st md)) = (False, c') \<and>
            map_of (cache c') =
              map_of (rev (live_entries (ttlMs c) now (takeWhile (\<lambda>e. e \<noteq> NullEntry) es))) \<and>
            stats c' = zero_stats))"
proof (intro conjI impI)
  show "import c now None = (False, c)"
    by (simp add: import_def)
  show "import c now (Some NullSnapshot) = (False, clear c)"
    by (simp add: import_def)
  have fails: "fst (import c now (Some (Snapshot (Some l) s m))) = False"
    if "NullEntry \<in> set l" for l s m
  proof -
    from that obtain l2 where "l = takeWhile (\<lambda>e. e \<noteq> NullEntry) l @ NullEntry # l2"
      using split_at_null by blast
    then have "fst (import_entries (clear c) now l) = False"
      using import_entries_null [OF takeWhile_no_null, of "clear c" now l l2] by simp
    then show ?thesis
      by (cases "import_entries (clear c) now l") (simp add: import_def)
  qed
  have succeeds: "fst (import c now (Some (Snapshot (Some l) s m))) = True"
    if "NullEntry \<notin> set l" for l s m
    using import_well_formed [OF that, of c now s m] by auto
  show "(fst (import c now parsed) = False) =
     (parsed = None \<or> parsed = Some NullSnapshot \<or>
      (\<exists>es st md. parsed = Some (Snapshot (Some es) st md) \<and> NullEntry \<in> set es))"
  proof (cases parsed)
    case None
    then show ?thesis by (simp add: import_def)
  next
    case (Some snap)
    show ?thesis
    proof (cases snap)
      case NullSnapshot
      with Some show ?thesis by (simp add: import_def)
    next
      case (Snapshot eo s m)
      show ?thesis
      proof (cases eo)
        case None
        with Some Snapshot show ?thesis by (simp add: import_def split: option.split)
      next
        case (Some l)
        with \<open>parsed = Some snap\<close> Snapshot fails [of l s m] succeeds [of l s m]
        show ?thesis by auto
      qed
    qed
  qed
next
  assume null: "NullEntry \<in> set es"
  let ?front = "takeWhile (\<lambda>e. e \<noteq> NullEntry) es"
  from null obtain es2 where split: "es = ?front @ NullEntry # es2"
    using split_at_null by blast
  obtain b c1 where front: "import_entries (clear c) now ?front = (b, c1)"
    by (cases "import_entries (clear c) now ?front") auto
  have run: "import_entries (clear c) now es = (False, c1)"
    using import_entries_null [OF takeWhile_no_null, of "clear c" now es es2] split front
    by simp
  note ok = import_entries_ok [OF takeWhile_no_null, of "clear c" now es, unfolded clear_fields
      front fst_conv snd_conv]
  show "\<exists>c'. import c now (Some (Snapshot (Some es) st md)) = (False, c') \<and>
      map_of (cache c') = map_of (rev (live_entries (ttlMs c) now ?front)) \<and>
      stats c' = zero_stats"
    using run ok by (simp add: import_def)
qed

theorem import_failure_witness:
  "\<exists>c'. import example_cache 100
          (Some (Snapshot (Some [Entry (js ''a'') 5 90, NullEntry, Entry (js ''c'') 7 95])
             None None)) = (False, c') \<and>
        map_of (cache c') = map_of [(js ''a'', \<lparr>data = 5, timestamp = 90\<rparr>)] \<and>
        stats c' = \<lparr>hits = 0, misses = 0, evictions = 0, sets = 0\<rparr>"
proof -
  have null: "NullEntry \<in> set [Entry (js ''a'') (5::int) 90, NullEntry, Entry (js ''c'') 7 95]"
    by simp
  show ?thesis
    using import_failure [of example_cache 100 None
        "[Entry (js ''a'') (5::int) 90, NullEntry, Entry (js ''c'') 7 95]" None None] null
    by (auto simp add: example_cache_def zero_stats_def)
qed

text \<open>
  Claim C5 as stated fails for a parseable snapshot with a \<open>null\<close> entry: \<open>import\<close>
  returns false, the entry \<open>old\<close> and the counters of the cache are gone, and the entry
  in front of the \<open>null\<close> has been imported.
\<close>

theorem import_partial_counterexample:
  "cache example_cache = [(js ''old'', \<lparr>data = 1, timestamp = 0\<rparr>)] \<and>
   import example_cache 100
     (Some (Snapshot (Some [Entry (js ''a'') 5 90, NullEntry, Entry (js ''c'') 7 95])
        None None)) =
     (False, \<lparr>maxEntries = 10, ttlMs = 1000,
              cache = [(js ''a'', \<lparr>data = 5, timestamp = 90\<rparr>)],
              accessOrder = [(js ''a'', 90)],
              stats = \<lparr>hits = 0, misses = 0, evictions = 0, sets = 0\<rparr>\<rparr>)"
  by (simp add: example_cache_def import_def clear_def)

subsection \<open>Eviction\<close>

lemma lru_fold:
  "\<exists>k' t'. foldl lru_step (Some k, Some t) xs = (Some k', Some t') \<and>
           (k', t') \<in> set ((k, t) # xs) \<and> (\<forall>p \<in> set ((k, t) # xs). t' \<le> snd p)"
proof (induction xs arbitrary: k t)
  case Nil
  then show ?case by simp
next
  case (Cons x xs)
  obtain k1 t1 where x: "x = (k1, t1)" by (cases x)
  show ?case
  proof (cases "t1 < t")
    case True
    then have step: "foldl lru_step (Some k, Some t) (x # xs) =
        foldl lru_step (Some k1, Some t1) xs"
      by (simp add: x lru_step_def)
    from Cons.IH [of k1 t1] obtain k' t' where
      f: "foldl lru_step (Some k1, Some t1) xs = (Some k', Some t')" and
      m: "(k', t') \<in> set ((k1, t1) # xs)" and
      l: "\<forall>p \<in> set ((k1, t1) # xs). t' \<le> snd p"
      by blast
    from l have "t' \<le> t1" by simp
    with True have "t' \<le> t" by simp
    with l have l': "\<forall>p \<in> set ((k, t) # x # xs). t' \<le> snd p"
      by (simp add: x)
    from m have m': "(k', t') \<in> set ((k, t) # x # xs)"
      by (simp add: x)
    from f step have g: "foldl lru_step (Some k, Some t) (x # xs) = (Some k', Some t')"
      by simp
    show ?thesis
      by (rule exI [of _ k'], rule exI [of _ t'], intro conjI) (rule g m' l')+
  next
    case False
    then have step: "foldl lru_step (Some k, Some t) (x # xs) =
        foldl lru_step (Some k, Some t) xs"
      by (simp add: x lru_step_def)
    from Cons.IH [of k t] obtain k' t' where
      f: "foldl lru_step (Some k, Some t) xs = (Some k', Some t')" and
      m: "(k', t') \<in> set ((k, t) # xs)" and
      l: "\<forall>p \<in> set ((k, t) # xs). t' \<le> snd p"
      by blast
    from l have "t' \<le> t" by simp
    with False have "t' \<le> t1" by simp
    with l have l': "\<forall>p \<in> set ((k, t) # x # xs). t' \<le> snd p"
      by (simp add: x)
    from m have m': "(k', t') \<in> set ((k, t) # x # xs)"
      by auto
    from f step have g: "foldl lru_step (Some k, Some t) (x # xs) = (Some k', Some t')"
      by simp
    show ?thesis
      by (rule exI [of _ k'], rule exI [of _ t'], intro conjI) (rule g m' l')+
  qed
qed

lemma lru_scan_least:
  assumes "order \<noteq> []"
  shows "\<exists>k t. lru_scan order = (Some k, Some t) \<and> (k, t) \<in> set order \<and>
               (\<forall>p \<in> set order. t \<le> snd p)"
proof -
  from assms obtain k t rest where o: "order = (k, t) # rest"
    by (cases order) auto
  have "lru_scan order = foldl lru_step (Some k, Some t) rest"
    by (simp add: o lru_scan_def lru_step_def)
  with lru_fold [of k t rest] show ?thesis
    unfolding o by simp
qed

lemma evictLRU_least_recent:
  assumes "accessOrder c \<noteq> []" and "fst (lru_scan (accessOrder c)) \<noteq> Some []"
  shows "\<exists>k t. (k, t) \<in> set (accessOrder c) \<and> (\<forall>p \<in> set (accessOrder c). t \<le> snd p) \<and>
               cache (evictLRU c) = AList.delete k (cache c) \<and>
               accessOrder (evictLRU c) = AList.delete k (accessOrder c) \<and>
               evictions (stats (evictLRU c)) = evictions (stats c) + 1"
proof -
  from lru_scan_least [OF assms(1)] obtain k t where
    scan: "lru_scan (accessOrder c) = (Some k, Some t)" and
    mem: "(k, t) \<in> set (accessOrder c)" and least: "\<forall>p \<in> set (accessOrder c). t \<le> snd p"
    by blast
  from scan assms(2) have "k \<noteq> []" by simp
  with scan have "evictLRU c =
      c\<lparr>cache := AList.delete k (cache c), accessOrder := AList.delete k (accessOrder c),
        stats := (stats c)\<lparr>evictions := evictions (stats c) + 1\<rparr>\<rparr>"
    by (simp add: evictLRU_def)
  with mem least show ?thesis by auto
qed

lemma keys_delete: "fst ` set (AList.delete k al) = fst ` set al - {k}"
  by (induction al) auto

lemma set_entry_bound:
  assumes ok: "cache_ok c" and bound: "int (length (cache c)) \<le> maxEntries c"
    and pos: "1 \<le> maxEntries c" and key: "fst (lru_scan (accessOrder c)) \<noteq> Some []"
  shows "int (length (cache (set_entry P c now url d))) \<le> maxEntries c \<and>
         cache_ok (set_entry P c now url d)"
proof (cases "int (length (cache c)) \<ge> maxEntries c \<and> map_of (cache c) (generateKey P url) = None")
  case False
  then have s: "set_entry P c now url d =
      c\<lparr>cache := AList.update (generateKey P url) \<lparr>data = d, timestamp = now\<rparr> (cache c),
        accessOrder := AList.update (generateKey P url) now (accessOrder c),
        stats := (stats c)\<lparr>sets := sets (stats c) + 1\<rparr>\<rparr>"
    by (auto simp add: set_entry_def Let_def)
  have len: "int (length (AList.update (generateKey P url) \<lparr>data = d, timestamp = now\<rparr> (cache c)))
      \<le> maxEntries c"
  proof (cases "generateKey P url \<in> fst ` set (cache c)")
    case True
    with bound show ?thesis by (simp add: length_update)
  next
    case notin: False
    then have "map_of (cache c) (generateKey P url) = None"
      by (simp add: map_of_eq_None_iff)
    with False have "int (length (cache c)) < maxEntries c" by simp
    with notin show ?thesis by (simp add: length_update)
  qed
  from ok have "cache_ok (set_entry P c now url d)"
    unfolding s by (simp add: cache_ok_def AList.distinct_update AList.dom_update)
  with len show ?thesis unfolding s by simp
next
  case True
  then have full: "int (length (cache c)) \<ge> maxEntries c"
    and new: "generateKey P url \<notin> fst ` set (cache c)"
    by (simp_all add: map_of_eq_None_iff)
  from full pos have "cache c \<noteq> []" by auto
  with ok have "accessOrder c \<noteq> []" by (auto simp add: cache_ok_def)
  from evictLRU_least_recent [OF this key] obtain k t where
    mem: "(k, t) \<in> set (accessOrder c)" and
    ev: "cache (evictLRU c) = AList.delete k (cache c)"
        "accessOrder (evictLRU c) = AList.delete k (accessOrder c)"
    by blast
  from mem ok have kin: "k \<in> fst ` set (cache c)"
    by (force simp add: cache_ok_def)
  from ok kin have len1: "Suc (length (AList.delete k (cache c))) = length (cache c)"
    by (simp add: cache_ok_def length_delete)
  from new have new': "generateKey P url \<notin> fst ` set (AList.delete k (cache c))"
    by (simp add: keys_delete)
  have s: "cache (set_entry P c now url d) =
        AList.update (generateKey P url) \<lparr>data = d, timestamp = now\<rparr> (AList.delete k (cache c))"
      "accessOrder (set_entry P c now url d) =
        AList.update (generateKey P url) now (AList.delete k (accessOrder c))"
    using True ev by (simp_all add: set_entry_def Let_def)
  have "length (cache (set_entry P c now url d)) = length (cache c)"
    unfolding s using new' len1 by (simp add: length_update)
  moreover from ok have "cache_ok (set_entry P c now url d)"
    unfolding cache_ok_def s
    by (simp add: AList.distinct_update AList.distinct_delete AList.dom_update keys_delete)
  ultimately show ?thesis using bound by simp
qed

text \<open>The invariant holds of a new cache and is kept by the other operations too.\<close>

lemma cache_ok_new: "cache_ok (new_CacheManager m t)"
  by (simp add: cache_ok_def new_CacheManager_def)

lemma cache_ok_clear: "cache_ok (clear c)"
  by (simp add: cache_ok_def clear_def)

lemma cache_ok_get:
  assumes "cache_ok c"
  shows "cache_ok (snd (get P c now url))"
proof (cases "map_of (cache c) (generateKey P url)")
  case None
  with assms show ?thesis by (simp add: get_def Let_def cache_ok_def)
next
  case (Some e)
  then have "generateKey P url \<in> fst ` set (cache c)"
    by (metis domI dom_map_of_conv_image_fst)
  with assms have kin: "generateKey P url \<in> fst ` set (accessOrder c)"
    by (simp add: cache_ok_def)
  show ?thesis
  proof (cases "isExpired c now e")
    case True
    with Some have "snd (get P c now url) =
        c\<lparr>cache := AList.delete (generateKey P url) (cache c),
          accessOrder := AList.delete (generateKey P url) (accessOrder c),
          stats := (stats c)\<lparr>misses := misses (stats c) + 1\<rparr>\<rparr>"
      by (simp add: get_def Let_def)
    with assms show ?thesis
      by (simp add: cache_ok_def AList.distinct_delete keys_delete)
  next
    case False
    with Some have "snd (get P c now url) =
        c\<lparr>accessOrder := AList.update (generateKey P url) now (accessOrder c),
          stats := (stats c)\<lparr>hits := hits (stats c) + 1\<rparr>\<rparr>"
      by (simp add: get_def Let_def)
    with assms kin show ?thesis
      by (simp add: cache_ok_def AList.distinct_update AList.dom_update insert_absorb)
  qed
qed

lemma cache_ok_has:
  assumes "cache_ok c"
  shows "cache_ok (snd (has P c now url))"
proof (cases "map_of (cache c) (generateKey P url)")
  case None
  with assms show ?thesis by (simp add: has_def Let_def)
next
  case (Some e)
  show ?thesis
  proof (cases "isExpired c now e")
    case True
    with Some have "snd (has P c now url) =
        c\<lparr>cache := AList.delete (generateKey P url) (cache c),
          accessOrder := AList.delete (generateKey P url) (accessOrder c)\<rparr>"
      by (simp add: has_def Let_def)
    with assms show ?thesis
      by (simp add: cache_ok_def AList.distinct_delete keys_delete)
  next
    case False
    with Some assms show ?thesis by (simp add: has_def Let_def)
  qed
qed

lemma generateKey_a: "generateKey basic (js ''https://a.example/'') = js ''https://a.example/''"
  unfolding generateKey_def basic_fields by code_simp

lemma generateKey_c: "generateKey basic (js ''https://c.example/'') = js ''https://c.example/''"
  unfolding generateKey_def basic_fields by code_simp

lemma generateKey_empty: "generateKey basic [] = []"
  unfolding generateKey_def basic_fields by code_simp

lemma key_facts:
  "js ''https://a.example/'' \<noteq> []" "js ''https://c.example/'' \<noteq> []"
  "js ''https://a.example/'' \<noteq> js ''https://c.example/''"
  "js ''https://c.example/'' \<noteq> js ''https://a.example/''"
  "js ''old'' \<noteq> js ''https://c.example/''" "js ''old'' \<noteq> []"
  "[] \<noteq> js ''https://a.example/''" "[] \<noteq> js ''https://c.example/''"
  by (simp_all add: js_def)

lemma lru_scenario_eq:
  "lru_scenario =
     \<lparr>maxEntries = 2, ttlMs = 1000,
      cache = [(js ''https://a.example/'', \<lparr>data = 10, timestamp = 1\<rparr>),
               ([], \<lparr>data = 20, timestamp = 2\<rparr>)],
      accessOrder = [(js ''https://a.example/'', 3), ([], 2)],
      stats = \<lparr>hits = 1, misses = 0, evictions = 0, sets = 2\<rparr>\<rparr>"
  by (simp add: lru_scenario_def set_entry_def get_def new_CacheManager_def isExpired_def
      Let_def generateKey_a generateKey_empty key_facts)

text \<open>
  Claim C6 fails on the code when the least recently used key is the empty string.
  A cache of capacity 2 gets the key \<open>https://a.example/\<close> at time 1 and the empty
  string (a malformed URL, kept as a literal key) at time 2; a \<open>get\<close> at time 3
  refreshes the first key. The cache is at capacity and the empty string has the
  smallest access time. A \<open>set\<close> of the new key \<open>https://c.example/\<close> at time 4 removes
  nothing: the cache then holds three entries and has counted no eviction.
\<close>

theorem evictLRU_keeps_empty_key:
  "maxEntries lru_scenario = 2 \<and>
   accessOrder lru_scenario = [(js ''https://a.example/'', 3), ([], 2)] \<and>
   lru_scan (accessOrder lru_scenario) = (Some [], Some 2) \<and>
   cache (set_entry basic lru_scenario 4 (js ''https://c.example/'') 30) =
     [(js ''https://a.example/'', \<lparr>data = 10, timestamp = 1\<rparr>),
      ([], \<lparr>data = 20, timestamp = 2\<rparr>),
      (js ''https://c.example/'', \<lparr>data = 30, timestamp = 4\<rparr>)] \<and>
   evictions (stats (set_entry basic lru_scenario 4 (js ''https://c.example/'') 30)) = 0"
  by (simp add: lru_scenario_eq set_entry_def evictLRU_def lru_scan_def lru_step_def Let_def
      generateKey_c key_facts)

subsection \<open>Export followed by import\<close>

lemma map_of_rev_distinct:
  "distinct (map fst xs) \<Longrightarrow> map_of (rev xs) = map_of xs"
proof (induction xs)
  case Nil
  then show ?case by simp
next
  case (Cons x xs)
  then have "fst x \<notin> dom (map_of xs)"
    by (simp add: dom_map_of_conv_image_fst)
  then have "map_of [x] ++ map_of xs = (map_of xs)(fst x \<mapsto> snd x)"
    by (auto simp add: fun_eq_iff map_add_def split: option.splits)
  with Cons show ?case by simp
qed

lemma live_entries_export:
  "live_entries ttl now (map (\<lambda>(key, e). Entry key (data e) (timestamp e)) xs) =
     filter (\<lambda>(key, e). now - timestamp e \<le> ttl) xs"
  by (induction xs) auto

lemma export_no_null:
  "NullEntry \<notin> set (map (\<lambda>(key, e). Entry key (data e) (timestamp e)) xs)"
  by (induction xs) auto

lemma get_value:
  "fst (get P c now url) =
     (case map_of (cache c) (generateKey P url) of
        None \<Rightarrow> None
      | Some e \<Rightarrow> if now - timestamp e > ttlMs c then None else Some (data e))"
  by (simp add: get_def Let_def isExpired_def split: option.split)

text \<open>
  Claim C8. Take a cache whose entries are all within their time to live at the time
  \<open>later\<close> of the reads, export it, and import the snapshot at a time \<open>now\<close> before
  \<open>later\<close> into a cache with the same time to live (the cache itself, for one). The
  import succeeds, and on the result \<open>get\<close> returns for every URL what it returns on
  the original cache: the data stored under the key of the URL, and nothing for a key
  that is not stored.
\<close>

theorem export_import_roundtrip:
  assumes "distinct (map fst (cache c))"
    and "ttlMs c2 = ttlMs c"
    and "now \<le> later"
    and "\<forall>(key, e) \<in> set (cache c). later - timestamp e \<le> ttlMs c"
  shows "\<exists>c'. import c2 now (Some (export c exported)) = (True, c') \<and>
           (\<forall>url. fst (get P c' later url) = fst (get P c later url)) \<and>
           (\<forall>url. fst (get P c' later url) =
                    map_option data (map_of (cache c) (generateKey P url)))"
proof -
  let ?es = "map (\<lambda>(key, e). Entry key (data e) (timestamp e)) (cache c)"
  have fresh: "\<forall>(key, e) \<in> set (cache c). now - timestamp e \<le> ttlMs c"
    using assms(3,4) by fastforce
  then have "filter (\<lambda>(key, e). now - timestamp e \<le> ttlMs c) (cache c) = cache c"
    by (auto simp add: filter_id_conv)
  then have live: "live_entries (ttlMs c2) now ?es = cache c"
    by (simp add: live_entries_export assms(2))
  from import_well_formed [OF export_no_null, of c2 now "cache c"]
  obtain c' where
    imp: "import c2 now (Some (export c exported)) = (True, c')" and
    look: "map_of (cache c') = map_of (rev (cache c))" and
    ttl: "ttlMs c' = ttlMs c2"
    unfolding export_def live by blast
  from look assms(1) have same: "map_of (cache c') = map_of (cache c)"
    by (simp add: map_of_rev_distinct)
  from ttl assms(2) have ttl': "ttlMs c' = ttlMs c" by simp
  have g1: "fst (get P c' later url) = fst (get P c later url)" for url
    by (simp only: get_value same ttl')
  have g2: "fst (get P c later url) = map_option data (map_of (cache c) (generateKey P url))"
    for url
  proof (cases "map_of (cache c) (generateKey P url)")
    case None
    then show ?thesis by (simp add: get_value)
  next
    case (Some e)
    then have "(generateKey P url, e) \<in> set (cache c)"
      by (rule map_of_SomeD)
    with assms(4) have "later - timestamp e \<le> ttlMs c" by auto
    with Some show ?thesis by (simp add: get_value)
  qed
  from imp g1 g2 show ?thesis by simp
qed

lemma populated_cache_eq:
  "populated_cache =
     \<lparr>maxEntries = 10, ttlMs = 1000,
      cache = [(js ''https://a.example/'',
                \<lparr>data = \<lparr>score = 40,
                         threats = [js ''Possible homograph attack (lookalike characters)''],
                         details = None, level = Medium, result_timestamp = 1,
                         error = None\<rparr>, timestamp = 1\<rparr>),
               (js ''https://c.example/'',
                \<lparr>data = \<lparr>score = 40,
                         threats = [js ''Possible homograph attack (lookalike characters)''],
                         details = None, level = Medium, result_timestamp = 2,
                         error = None\<rparr>, timestamp = 2\<rparr>)],
      accessOrder = [(js ''https://a.example/'', 1), (js ''https://c.example/'', 2)],
      stats = \<lparr>hits = 0, misses = 0, evictions = 0, sets = 2\<rparr>\<rparr>"
  by (simp add: populated_cache_def set_entry_def new_CacheManager_def Let_def generateKey_a
      generateKey_c key_facts)

lemma generateKey_not_a_url: "generateKey basic (js ''not a url'') = js ''not a url''"
  unfolding generateKey_def basic_fields by code_simp

theorem export_import_roundtrip_witness:
  "\<exists>c'. import populated_cache 5 (Some (export populated_cache 4)) = (True, c') \<and>
     (\<forall>url. fst (get basic c' 6 url) = fst (get basic populated_cache 6 url)) \<and>
     fst (get basic c' 6 (js ''https://a.example/'')) =
       Some \<lparr>score = 40, threats = [js ''Possible homograph attack (lookalike characters)''],
             details = None, level = Medium, result_timestamp = 1, error = None\<rparr> \<and>
     fst (get basic c' 6 (js ''https://c.example/'')) =
       Some \<lparr>score = 40, threats = [js ''Possible homograph attack (lookalike characters)''],
             details = None, level = Medium, result_timestamp = 2, error = None\<rparr> \<and>
     fst (get basic c' 6 (js ''not a url'')) = None"
proof -
  have d: "distinct (map fst (cache populated_cache))"
    by (simp add: populated_cache_eq key_facts)
  have t: "ttlMs populated_cache = ttlMs populated_cache" by simp
  have o: "(5::int) \<le> 6" by simp
  have f: "\<forall>(key, e) \<in> set (cache populated_cache). 6 - timestamp e \<le> ttlMs populated_cache"
    by (simp add: populated_cache_eq)
  have n: "js ''not a url'' \<noteq> js ''https://a.example/''"
    "js ''not a url'' \<noteq> js ''https://c.example/''"
    by (simp_all add: js_def)
  from export_import_roundtrip [OF d t o f, of 4 basic]
  obtain c' where
    imp: "import populated_cache 5 (Some (export populated_cache 4)) = (True, c')" and
    g1: "\<forall>url. fst (get basic c' 6 url) = fst (get basic populated_cache 6 url)" and
    g2: "\<forall>url. fst (get basic c' 6 url) =
           map_option data (map_of (cache populated_cache) (generateKey basic url))"
    by blast
  have a: "fst (get basic c' 6 (js ''https://a.example/'')) =
      Some \<lparr>score = 40, threats = [js ''Possible homograph attack (lookalike characters)''],
            details = None, level = Medium, result_timestamp = 1, error = None\<rparr>"
    by (simp add: g2 generateKey_a populated_cache_eq)
  have c: "fst (get basic c' 6 (js ''https://c.example/'')) =
      Some \<lparr>score = 40, threats = [js ''Possible homograph attack (lookalike characters)''],
            details = None, level = Medium, result_timestamp = 2, error = None\<rparr>"
    by (simp add: g2 generateKey_c populated_cache_eq key_facts)
  have x: "fst (get basic c' 6 (js ''not a url'')) = None"
    by (simp add: g2 generateKey_not_a_url populated_cache_eq n)
  from imp g1 a c x show ?thesis by blast
qed

subsection \<open>The size bound\<close>

text \<open>
  \<open>import\<close> does not evict: a snapshot whose non-expired entries have distinct keys
  and are more than \<open>maxEntries\<close> is imported whole.
\<close>

lemma import_exceeds_bound:
  assumes "NullEntry \<notin> set es"
    and "distinct (map fst (live_entries (ttlMs c) now es))"
    and "int (length (live_entries (ttlMs c) now es)) > maxEntries c"
  shows "\<exists>c'. import c now (Some (Snapshot (Some es) st md)) = (True, c') \<and>
           length (cache c') = length (live_entries (ttlMs c) now es) \<and>
           int (length (cache c')) > maxEntries c'"
proof -
  from import_well_formed [OF assms(1), of c now st md] obtain c' where
    imp: "import c now (Some (Snapshot (Some es) st md)) = (True, c')" and
    keys: "fst ` set (cache c') = fst ` set (live_entries (ttlMs c) now es)" and
    dist: "distinct (map fst (cache c'))" and
    maxE: "maxEntries c' = maxEntries c"
    by blast
  have "length (cache c') = card (fst ` set (cache c'))"
    using dist distinct_card [of "map fst (cache c')"] by simp
  also have "\<dots> = card (fst ` set (live_entries (ttlMs c) now es))"
    by (simp only: keys)
  also have "\<dots> = length (live_entries (ttlMs c) now es)"
    using assms(2) distinct_card [of "map fst (live_entries (ttlMs c) now es)"] by simp
  finally have len: "length (cache c') = length (live_entries (ttlMs c) now es)" .
  with assms(3) maxE have "int (length (cache c')) > maxEntries c'" by simp
  with imp len show ?thesis by blast
qed

text \<open>
  Claim C10 fails on the code in its clause on \<open>set\<close>, by the test \<open>if (lruKey)\<close> of
  \<open>_evictLRU\<close>. A new cache of capacity 1 gets the empty string as a key at time 0
  (a malformed URL is kept as a literal key) and is within its bound. A \<open>set\<close> of the new
  key \<open>https://c.example/\<close> at time 1 finds the cache full and calls \<open>_evictLRU\<close>, which
  finds the empty string as the least recently used key and removes nothing: the cache
  then holds two entries with \<open>maxEntries\<close> 1 and has counted no eviction. The clause on
  \<open>import\<close> holds: a snapshot with two entries imported into a new cache of capacity 1
  leaves two entries in it.
\<close>

theorem set_exceeds_bound_on_empty_key:
  "import (new_CacheManager 1 1000) 100 (Some (Snapshot (Some two_entries) None None)) =
     (True, \<lparr>maxEntries = 1, ttlMs = 1000,
             cache = [(js ''https://a.example/'', \<lparr>data = 5, timestamp = 90\<rparr>),
                      (js ''https://c.example/'', \<lparr>data = 6, timestamp = 95\<rparr>)],
             accessOrder = [(js ''https://a.example/'', 90), (js ''https://c.example/'', 95)],
             stats = \<lparr>hits = 0, misses = 0, evictions = 0, sets = 0\<rparr>\<rparr>) \<and>
   set_entry basic (new_CacheManager 1 1000) 0 [] (7::int) =
     \<lparr>maxEntries = 1, ttlMs = 1000,
      cache = [([], \<lparr>data = 7, timestamp = 0\<rparr>)],
      accessOrder = [([], 0)],
      stats = \<lparr>hits = 0, misses = 0, evictions = 0, sets = 1\<rparr>\<rparr> \<and>
   set_entry basic (set_entry basic (new_CacheManager 1 1000) 0 [] (7::int))
       1 (js ''https://c.example/'') 8 =
     \<lparr>maxEntries = 1, ttlMs = 1000,
      cache = [([], \<lparr>data = 7, timestamp = 0\<rparr>),
               (js ''https://c.example/'', \<lparr>data = 8, timestamp = 1\<rparr>)],
      accessOrder = [([], 0), (js ''https://c.example/'', 1)],
      stats = \<lparr>hits = 0, misses = 0, evictions = 0, sets = 2\<rparr>\<rparr>"
  by (simp add: set_entry_def evictLRU_def lru_scan_def lru_step_def new_CacheManager_def Let_def
      generateKey_c generateKey_empty key_facts import_def clear_def two_entries_def)

subsection \<open>Two concrete URLs\<close>

text \<open>
  The typosquatting loop is evaluated on the legitimate domains in four parts of the
  list, for a detector with its tables loaded and a configuration of which only the
  typosquatting parameters are given.
\<close>

lemma CONFIG_parts:
  "CONFIG =
     \<lparr>thresholds = thresholds CONFIG, performance = performance CONFIG,
      weights = weights CONFIG, patterns = patterns CONFIG,
      typosquatting = \<lparr>MAX_LEVENSHTEIN_DISTANCE = 2, MIN_DOMAIN_LENGTH = 4,
                        KEYBOARD_PROXIMITY_THRESHOLD = 4 / 5\<rparr>,
      features = features CONFIG\<rparr>"
  by (simp add: CONFIG_def)

lemma loaded_parts:
  "tablesLoaded det \<Longrightarrow>
   det = \<lparr>this_cache = this_cache det, dataLoaded = dataLoaded det,
          this_legitimateDomains = this_legitimateDomains det,
          this_homographs = this_homographs det,
          this_charSubstitutions = Some charSubstitutions,
          this_keyboardProximity = Some keyboardProximity\<rparr>"
  by (simp add: tablesLoaded_def)

lemma list_all_split:
  "list_all Q (take n xs) \<Longrightarrow> list_all Q (drop n xs) \<Longrightarrow> list_all Q xs"
  by (metis append_take_drop_id list_all_append)

lemma typosquatting_loop_none:
  "list_all (\<lambda>l. typosquats cfg det currentBase l = Inr False) domains \<Longrightarrow>
   typosquatting_loop cfg det currentBase domains = Inr None"
  by (induction domains) simp_all

lemma arnaz0n_chunk1:
  "list_all (\<lambda>l. typosquats
      \<lparr>thresholds = a, performance = b, weights = c, patterns = d,
       typosquatting = \<lparr>MAX_LEVENSHTEIN_DISTANCE = 2, MIN_DOMAIN_LENGTH = 4,
                         KEYBOARD_PROXIMITY_THRESHOLD = 4 / 5\<rparr>,
       features = e\<rparr>
      \<lparr>this_cache = k, dataLoaded = f, this_legitimateDomains = g, this_homographs = h,
       this_charSubstitutions = Some charSubstitutions,
       this_keyboardProximity = Some keyboardProximity\<rparr>
      (js ''arnaz0n'') l = Inr False) (take 15 legitimateDomains)"
  by code_simp

lemma arnaz0n_chunk2:
  "list_all (\<lambda>l. typosquats
      \<lparr>thresholds = a, performance = b, weights = c, patterns = d,
       typosquatting = \<lparr>MAX_LEVENSHTEIN_DISTANCE = 2, MIN_DOMAIN_LENGTH = 4,
                         KEYBOARD_PROXIMITY_THRESHOLD = 4 / 5\<rparr>,
       features = e\<rparr>
      \<lparr>this_cache = k, dataLoaded = f, this_legitimateDomains = g, this_homographs = h,
       this_charSubstitutions = Some charSubstitutions,
       this_keyboardProximity = Some keyboardProximity\<rparr>
      (js ''arnaz0n'') l = Inr False) (take 15 (drop 15 legitimateDomains))"
  by code_simp

lemma arnaz0n_chunk3:
  "list_all (\<lambda>l. typosquats
      \<lparr>thresholds = a, performance = b, weights = c, patterns = d,
       typosquatting = \<lparr>MAX_LEVENSHTEIN_DISTANCE = 2, MIN_DOMAIN_LENGTH = 4,
                         KEYBOARD_PROXIMITY_THRESHOLD = 4 / 5\<rparr>,
       features = e\<rparr>
      \<lparr>this_cache = k, dataLoaded = f, this_legitimateDomains = g, this_homographs = h,
       this_charSubstitutions = Some charSubstitutions,
       this_keyboardProximity = Some keyboardProximity\<rparr>
      (js ''arnaz0n'') l = Inr False) (take 15 (drop 15 (drop 15 legitimateDomains)))"
  by code_simp

lemma arnaz0n_chunk4:
  "list_all (\<lambda>l. typosquats
      \<lparr>thresholds = a, performance = b, weights = c, patterns = d,
       typosquatting = \<lparr>MAX_LEVENSHTEIN_DISTANCE = 2, MIN_DOMAIN_LENGTH = 4,
                         KEYBOARD_PROXIMITY_THRESHOLD = 4 / 5\<rparr>,
       features = e\<rparr>
      \<lparr>this_cache = k, dataLoaded = f, this_legitimateDomains = g, this_homographs = h,
       this_charSubstitutions = Some charSubstitutions,
       this_keyboardProximity = Some keyboardProximity\<rparr>
      (js ''arnaz0n'') l = Inr False) (drop 15 (drop 15 (drop 15 legitimateDomains)))"
  by code_simp

lemma firstLabel_arnaz0n: "firstLabel (js ''arnaz0n.com'') = js ''arnaz0n''"
  by code_simp

lemma detectTyposquatting_arnaz0n:
  assumes "tablesLoaded det"
  shows "detectTyposquatting CONFIG det (js ''arnaz0n.com'') = Inr None"
proof -
  let ?cfg = "\<lparr>thresholds = thresholds CONFIG, performance = performance CONFIG,
      weights = weights CONFIG, patterns = patterns CONFIG,
      typosquatting = \<lparr>MAX_LEVENSHTEIN_DISTANCE = 2, MIN_DOMAIN_LENGTH = 4,
                        KEYBOARD_PROXIMITY_THRESHOLD = 4 / 5\<rparr>,
      features = features CONFIG\<rparr>"
  let ?det = "\<lparr>this_cache = this_cache det, dataLoaded = dataLoaded det,
      this_legitimateDomains = this_legitimateDomains det,
      this_homographs = this_homographs det,
      this_charSubstitutions = Some charSubstitutions,
      this_keyboardProximity = Some keyboardProximity\<rparr>"
  let ?Q = "\<lambda>l. typosquats ?cfg ?det (js ''arnaz0n'') l = Inr False"
  have c34: "list_all ?Q (drop 15 (drop 15 legitimateDomains))"
    by (rule list_all_split [where n = 15, OF arnaz0n_chunk3 arnaz0n_chunk4])
  have c234: "list_all ?Q (drop 15 legitimateDomains)"
    by (rule list_all_split [where n = 15, OF arnaz0n_chunk2 c34])
  have "list_all ?Q legitimateDomains"
    by (rule list_all_split [where n = 15, OF arnaz0n_chunk1 c234])
  then have "typosquatting_loop ?cfg ?det (js ''arnaz0n'') legitimateDomains = Inr None"
    by (rule typosquatting_loop_none)
  then have "typosquatting_loop CONFIG det (js ''arnaz0n'') legitimateDomains = Inr None"
    using CONFIG_parts loaded_parts [OF assms] by simp
  then show ?thesis
    using assms by (simp add: detectTyposquatting_def tablesLoaded_def firstLabel_arnaz0n)
qed

lemma accounts_chunk1:
  "list_all (\<lambda>l. typosquats
      \<lparr>thresholds = a, performance = b, weights = c, patterns = d,
       typosquatting = \<lparr>MAX_LEVENSHTEIN_DISTANCE = 2, MIN_DOMAIN_LENGTH = 4,
                         KEYBOARD_PROXIMITY_THRESHOLD = 4 / 5\<rparr>,
       features = e\<rparr>
      \<lparr>this_cache = k, dataLoaded = f, this_legitimateDomains = g, this_homographs = h,
       this_charSubstitutions = Some charSubstitutions,
       this_keyboardProximity = Some keyboardProximity\<rparr>
      (js ''accounts'') l = Inr False) (take 15 legitimateDomains)"
  by code_simp

lemma accounts_chunk2:
  "list_all (\<lambda>l. typosquats
      \<lparr>thresholds = a, performance = b, weights = c, patterns = d,
       typosquatting = \<lparr>MAX_LEVENSHTEIN_DISTANCE = 2, MIN_DOMAIN_LENGTH = 4,
                         KEYBOARD_PROXIMITY_THRESHOLD = 4 / 5\<rparr>,
       features = e\<rparr>
      \<lparr>this_cache = k, dataLoaded = f, this_legitimateDomains = g, this_homographs = h,
       this_charSubstitutions = Some charSubstitutions,
       this_keyboardProximity = Some keyboardProximity\<rparr>
      (js ''accounts'') l = Inr False) (take 15 (drop 15 legitimateDomains))"
  by code_simp

lemma accounts_chunk3:
  "list_all (\<lambda>l. typosquats
      \<lparr>thresholds = a, performance = b, weights = c, patterns = d,
       typosquatting = \<lparr>MAX_LEVENSHTEIN_DISTANCE = 2, MIN_DOMAIN_LENGTH = 4,
                         KEYBOARD_PROXIMITY_THRESHOLD = 4 / 5\<rparr>,
       features = e\<rparr>
      \<lparr>this_cache = k, dataLoaded = f, this_legitimateDomains = g, this_homographs = h,
       this_charSubstitutions = Some charSubstitutions,
       this_keyboardProximity = Some keyboardProximity\<rparr>
      (js ''accounts'') l = Inr False) (take 15 (drop 15 (drop 15 legitimateDomains)))"
  by code_simp

lemma accounts_chunk4:
  "list_all (\<lambda>l. typosquats
      \<lparr>thresholds = a, performance = b, weights = c, patterns = d,
       typosquatting = \<lparr>MAX_LEVENSHTEIN_DISTANCE = 2, MIN_DOMAIN_LENGTH = 4,
                         KEYBOARD_PROXIMITY_THRESHOLD = 4 / 5\<rparr>,
       features = e\<rparr>
      \<lparr>this_cache = k, dataLoaded = f, this_legitimateDomains = g, this_homographs = h,
       this_charSubstitutions = Some charSubstitutions,
       this_keyboardProximity = Some keyboardProximity\<rparr>
      (js ''accounts'') l = Inr False) (drop 15 (drop 15 (drop 15 legitimateDomains)))"
  by code_simp

lemma firstLabel_accounts: "firstLabel (js ''accounts.google.com'') = js ''accounts''"
  by code_simp

lemma detectTyposquatting_accounts:
  assumes "tablesLoaded det"
  shows "detectTyposquatting CONFIG det (js ''accounts.google.com'') = Inr None"
proof -
  let ?cfg = "\<lparr>thresholds = thresholds CONFIG, performance = performance CONFIG,
      weights = weights CONFIG, patterns = patterns CONFIG,
      typosquatting = \<lparr>MAX_LEVENSHTEIN_DISTANCE = 2, MIN_DOMAIN_LENGTH = 4,
                        KEYBOARD_PROXIMITY_THRESHOLD = 4 / 5\<rparr>,
      features = features CONFIG\<rparr>"
  let ?det = "\<lparr>this_cache = this_cache det, dataLoaded = dataLoaded det,
      this_legitimateDomains = this_legitimateDomains det,
      this_homographs = this_homographs det,
      this_charSubstitutions = Some charSubstitutions,
      this_keyboardProximity = Some keyboardProximity\<rparr>"
  let ?Q = "\<lambda>l. typosquats ?cfg ?det (js ''accounts'') l = Inr False"
  have c34: "list_all ?Q (drop 15 (drop 15 legitimateDomains))"
    by (rule list_all_split [where n = 15, OF accounts_chunk3 accounts_chunk4])
  have c234: "list_all ?Q (drop 15 legitimateDomains)"
    by (rule list_all_split [where n = 15, OF accounts_chunk2 c34])
  have "list_all ?Q legitimateDomains"
    by (rule list_all_split [where n = 15, OF accounts_chunk1 c234])
  then have "typosquatting_loop ?cfg ?det (js ''accounts'') legitimateDomains = Inr None"
    by (rule typosquatting_loop_none)
  then have "typosquatting_loop CONFIG det (js ''accounts'') legitimateDomains = Inr None"
    using CONFIG_parts loaded_parts [OF assms] by simp
  then show ?thesis
    using assms by (simp add: detectTyposquatting_def tablesLoaded_def firstLabel_accounts)
qed

lemma analyzeURL_arnaz0n:
  assumes "tablesLoaded det"
  shows "analyzeURL basic CONFIG det (js ''https://arnaz0n.com/'') =
     \<lparr>score = 40, threats = [js ''Possible homograph attack (lookalike characters)''],
      details = Some \<lparr>details_protocol = js ''https:'', details_domain = js ''arnaz0n.com'',
                      isHTTPS = True, subdomainCount = 0\<rparr>\<rparr>"
proof -
  let ?url = "js ''https://arnaz0n.com/''"
  let ?u = "\<lparr>protocol = js ''https:'', hostname = js ''arnaz0n.com'', pathname = js ''/'',
             toString_no_hash = js ''https://arnaz0n.com/''\<rparr>"
  have u: "URL_basic ?url = Some ?u" by code_simp
  have d: "lower_basic (js ''arnaz0n.com'') = js ''arnaz0n.com''" by code_simp
  have p: "lower_basic (js ''/'') = js ''/''" by code_simp
  have f: "lower_basic ?url = ?url" by code_simp
  have r2: "IP_ADDRESS_PATTERN_test ?url = False" by code_simp
  have r3: "hasSuspiciousTLD CONFIG (js ''arnaz0n.com'') = False"
    unfolding hasSuspiciousTLD_def CONFIG_SUSPICIOUS_TLDS by code_simp
  have r4: "getSubdomainCount (js ''arnaz0n.com'') = 0" by code_simp
  have r5: "findSuspiciousKeywords CONFIG ?url = []"
    unfolding findSuspiciousKeywords_def CONFIG_SUSPICIOUS_KEYWORDS by code_simp
  have l: "(48::int) \<in> set (js ''l01'')" by (simp add: js_def)
  have m: "(48::int) \<in> set (js ''arnaz0n.com'')" by (simp add: js_def)
  have r6: "detectHomographAttack det (toLowerCase basic (hostname ?u)) = Inr True"
    using detectHomographAttack_loaded [OF assms l m] by (simp add: basic_fields d)
  have r7: "detectTyposquatting CONFIG det (toLowerCase basic (hostname ?u)) = Inr None"
    using detectTyposquatting_arnaz0n [OF assms] by (simp add: basic_fields d)
  have r8: "includes_str ?url (js ''@'') = False" by code_simp
  have r9: "isURLShortener CONFIG (js ''arnaz0n.com'') = False"
    unfolding isURLShortener_def CONFIG_URL_SHORTENERS by code_simp
  have r10: "hasEmbeddedURL (js ''/'') = False" by code_simp
  have s: "score (analyzeURL_rules basic CONFIG det ?url ?u) = 40"
    by (simp add: score_analyzeURL_rules [OF r6 r7] basic_fields d p f r2 r3 r4 r5 r8 r9 r10
        CONFIG_weights)
  have t: "threats (analyzeURL_rules basic CONFIG det ?url ?u) =
      [js ''Possible homograph attack (lookalike characters)'']"
    by (simp add: threats_analyzeURL_rules [OF r6 r7] basic_fields d p f r2 r3 r4 r5 r8 r9 r10)
  have e: "details (analyzeURL_rules basic CONFIG det ?url ?u) =
      Some \<lparr>details_protocol = js ''https:'', details_domain = js ''arnaz0n.com'',
            isHTTPS = True, subdomainCount = 0\<rparr>"
    by (simp add: details_analyzeURL_rules [OF r6 r7] basic_fields d r4)
  show ?thesis
    using s t e by (simp add: analyzeURL_def basic_fields u analysis.equality)
qed

lemma analyzeURL_accounts:
  assumes "tablesLoaded det"
  shows "analyzeURL basic CONFIG det (js ''https://accounts.google.com/signin'') =
     \<lparr>score = 40, threats = [js ''Possible homograph attack (lookalike characters)''],
      details = Some \<lparr>details_protocol = js ''https:'', details_domain = js ''accounts.google.com'',
                      isHTTPS = True, subdomainCount = 1\<rparr>\<rparr>"
proof -
  let ?url = "js ''https://accounts.google.com/signin''"
  let ?u = "\<lparr>protocol = js ''https:'', hostname = js ''accounts.google.com'', pathname = js ''/signin'',
             toString_no_hash = js ''https://accounts.google.com/signin''\<rparr>"
  have u: "URL_basic ?url = Some ?u" by code_simp
  have d: "lower_basic (js ''accounts.google.com'') = js ''accounts.google.com''" by code_simp
  have p: "lower_basic (js ''/signin'') = js ''/signin''" by code_simp
  have f: "lower_basic ?url = ?url" by code_simp
  have r2: "IP_ADDRESS_PATTERN_test ?url = False" by code_simp
  have r3: "hasSuspiciousTLD CONFIG (js ''accounts.google.com'') = False"
    unfolding hasSuspiciousTLD_def CONFIG_SUSPICIOUS_TLDS by code_simp
  have r4: "getSubdomainCount (js ''accounts.google.com'') = 1" by code_simp
  have r5: "findSuspiciousKeywords CONFIG ?url = []"
    unfolding findSuspiciousKeywords_def CONFIG_SUSPICIOUS_KEYWORDS by code_simp
  have l: "(108::int) \<in> set (js ''l01'')" by (simp add: js_def)
  have m: "(108::int) \<in> set (js ''accounts.google.com'')" by (simp add: js_def)
  have r6: "detectHomographAttack det (toLowerCase basic (hostname ?u)) = Inr True"
    using detectHomographAttack_loaded [OF assms l m] by (simp add: basic_fields d)
  have r7: "detectTyposquatting CONFIG det (toLowerCase basic (hostname ?u)) = Inr None"
    using detectTyposquatting_accounts [OF assms] by (simp add: basic_fields d)
  have r8: "includes_str ?url (js ''@'') = False" by code_simp
  have r9: "isURLShortener CONFIG (js ''accounts.google.com'') = False"
    unfolding isURLShortener_def CONFIG_URL_SHORTENERS by code_simp
  have r10: "hasEmbeddedURL (js ''/signin'') = False" by code_simp
  have s: "score (analyzeURL_rules basic CONFIG det ?url ?u) = 40"
    by (simp add: score_analyzeURL_rules [OF r6 r7] basic_fields d p f r2 r3 r4 r5 r8 r9 r10
        CONFIG_weights)
  have t: "threats (analyzeURL_rules basic CONFIG det ?url ?u) =
      [js ''Possible homograph attack (lookalike characters)'']"
    by (simp add: threats_analyzeURL_rules [OF r6 r7] basic_fields d p f r2 r3 r4 r5 r8 r9 r10)
  have e: "details (analyzeURL_rules basic CONFIG det ?url ?u) =
      Some \<lparr>details_protocol = js ''https:'', details_domain = js ''accounts.google.com'',
            isHTTPS = True, subdomainCount = 1\<rparr>"
    by (simp add: details_analyzeURL_rules [OF r6 r7] basic_fields d r4)
  show ?thesis
    using s t e by (simp add: analyzeURL_def basic_fields u analysis.equality)
qed

lemma runPasses_no_document:
  "runPasses P cfg det now url None =
     \<lparr>score = score (analyzeURL P cfg det url), threats = threats (analyzeURL P cfg det url),
      details = None, level = getRiskLevel cfg (score (analyzeURL P cfg det url)),
      result_timestamp = now, error = None\<rparr>"
  by (simp add: runPasses_def mergeAnalysis_def Let_def)

text \<open>
  Claim C1 fails on the code. For \<open>https://accounts.google.com/signin\<close> with no
  document, a new detector with the default configuration returns score 40 and level
  medium, with the homograph threat: the host contains the letter \<open>l\<close>, which the
  homograph table lists as a lookalike of \<open>i\<close>. No other rule of the URL pass fires.
\<close>

theorem analyze_google_signin:
  "fst (analyze basic CONFIG (new_PhishingDetector CONFIG) now
          (js ''https://accounts.google.com/signin'') None) =
     Some \<lparr>score = 40, threats = [js ''Possible homograph attack (lookalike characters)''],
           details = None, level = Medium, result_timestamp = now, error = None\<rparr>"
proof -
  have ne: "js ''https://accounts.google.com/signin'' \<noteq> []" by (simp add: js_def)
  have "fst (analyze basic CONFIG (new_PhishingDetector CONFIG) now
          (js ''https://accounts.google.com/signin'') None) =
      Some (runPasses basic CONFIG (ensureDataLoaded (new_PhishingDetector CONFIG)) now
              (js ''https://accounts.google.com/signin'') None)"
    using ne fresh_detector_miss by (rule analyze_miss)
  then show ?thesis
    by (simp add: runPasses_no_document analyzeURL_accounts [OF tablesLoaded_new]
        getRiskLevel_CONFIG)
qed

text \<open>
  Claim C2 fails on the code. With the tables loaded, the typosquatting detector
  returns no target for \<open>arnaz0n.com\<close>: against \<open>amazon\<close> the edit distance of the label
  \<open>arnaz0n\<close> is 3, above the maximum of 2, the label after substitution is not \<open>amazon\<close>,
  and the keyboard comparison is below the threshold; no other legitimate domain
  matches either. The URL pass on \<open>https://arnaz0n.com/\<close> adds no typosquatting weight
  and pushes no typosquatting threat; its score of 40 is the homograph rule firing on
  the digit \<open>0\<close>, and that is the assessment which \<open>analyze\<close> returns on a new detector.
\<close>

theorem typosquatting_misses_arnaz0n:
  "detectTyposquatting CONFIG (ensureDataLoaded (new_PhishingDetector CONFIG))
     (js ''arnaz0n.com'') = Inr None \<and>
   getLevenshteinDistance (js ''amazon'') (js ''arnaz0n'') = 3 \<and>
   checkCharSubstitution (ensureDataLoaded (new_PhishingDetector CONFIG))
     (js ''arnaz0n'') (js ''amazon'') = Inr False \<and>
   detectKeyboardProximityAttack CONFIG (ensureDataLoaded (new_PhishingDetector CONFIG))
     (js ''arnaz0n'') (js ''amazon'') = Inr False \<and>
   analyzeURL basic CONFIG (ensureDataLoaded (new_PhishingDetector CONFIG))
     (js ''https://arnaz0n.com/'') =
     \<lparr>score = 40, threats = [js ''Possible homograph attack (lookalike characters)''],
      details = Some \<lparr>details_protocol = js ''https:'', details_domain = js ''arnaz0n.com'',
                      isHTTPS = True, subdomainCount = 0\<rparr>\<rparr> \<and>
   fst (analyze basic CONFIG (new_PhishingDetector CONFIG) now (js ''https://arnaz0n.com/'')
          None) =
     Some \<lparr>score = 40, threats = [js ''Possible homograph attack (lookalike characters)''],
           details = None, level = Medium, result_timestamp = now, error = None\<rparr>"
proof -
  let ?det = "ensureDataLoaded (new_PhishingDetector CONFIG)"
  note loaded = tablesLoaded_new
  have l: "getLevenshteinDistance (js ''amazon'') (js ''arnaz0n'') = 3" by code_simp
  have "checkCharSubstitution
      \<lparr>this_cache = k, dataLoaded = f, this_legitimateDomains = g, this_homographs = h,
       this_charSubstitutions = Some charSubstitutions,
       this_keyboardProximity = Some keyboardProximity\<rparr>
      (js ''arnaz0n'') (js ''amazon'') = Inr False" for k f g h
    by code_simp
  then have c: "checkCharSubstitution ?det (js ''arnaz0n'') (js ''amazon'') = Inr False"
    by (simp add: ensureDataLoaded_new)
  have "detectKeyboardProximityAttack
      \<lparr>thresholds = thresholds CONFIG, performance = performance CONFIG,
       weights = weights CONFIG, patterns = patterns CONFIG,
       typosquatting = \<lparr>MAX_LEVENSHTEIN_DISTANCE = 2, MIN_DOMAIN_LENGTH = 4,
                         KEYBOARD_PROXIMITY_THRESHOLD = 4 / 5\<rparr>,
       features = features CONFIG\<rparr>
      \<lparr>this_cache = k, dataLoaded = f, this_legitimateDomains = g, this_homographs = h,
       this_charSubstitutions = Some charSubstitutions,
       this_keyboardProximity = Some keyboardProximity\<rparr>
      (js ''arnaz0n'') (js ''amazon'') = Inr False" for k f g h
    by code_simp
  then have k: "detectKeyboardProximityAttack CONFIG ?det (js ''arnaz0n'') (js ''amazon'') =
      Inr False"
    using CONFIG_parts by (simp add: ensureDataLoaded_new)
  have ne: "js ''https://arnaz0n.com/'' \<noteq> []" by (simp add: js_def)
  have "fst (analyze basic CONFIG (new_PhishingDetector CONFIG) now
          (js ''https://arnaz0n.com/'') None) =
      Some (runPasses basic CONFIG ?det now (js ''https://arnaz0n.com/'') None)"
    using ne fresh_detector_miss by (rule analyze_miss)
  then have a: "fst (analyze basic CONFIG (new_PhishingDetector CONFIG) now
          (js ''https://arnaz0n.com/'') None) =
      Some \<lparr>score = 40, threats = [js ''Possible homograph attack (lookalike characters)''],
            details = None, level = Medium, result_timestamp = now, error = None\<rparr>"
    by (simp add: runPasses_no_document analyzeURL_arnaz0n [OF loaded] getRiskLevel_CONFIG)
  show ?thesis
    using l c k a detectTyposquatting_arnaz0n [OF loaded] analyzeURL_arnaz0n [OF loaded]
    by simp
qed

end
